theory Spec2Isabelle
  imports Complex_Main "HOL-Library.Word" "HOL-Library.Sublist"
begin

section \<open>JavaScript values\<close>

text \<open>
  A JavaScript string is a sequence of UTF-16 code units; \<open>length\<close>, \<open>slice\<close> and
  \<open>trim\<close> all count and inspect code units. String literals of the source that are
  plain ASCII are written through \<open>js\<close>.
\<close>

type_synonym jsstring = "16 word list"

definition js :: "string \<Rightarrow> jsstring" where
  "js s = map of_char s"

text \<open>\<open>String.prototype.includes\<close>: the argument occurs as a contiguous run.\<close>

fun js_includes :: "'a list \<Rightarrow> 'a list \<Rightarrow> bool" where
  "js_includes [] search = (search = [])"
| "js_includes (c # cs) search = (prefix search (c # cs) \<or> js_includes cs search)"

text \<open>
  \<open>String.prototype.trim\<close> strips the ECMAScript WhiteSpace and LineTerminator code
  points from both ends. All of them lie in the basic plane, so one code unit each.
\<close>

definition is_whitespace :: "16 word \<Rightarrow> bool" where
  "is_whitespace c =
     (c = 0x0009 \<or> c = 0x000A \<or> c = 0x000B \<or> c = 0x000C \<or> c = 0x000D \<or> c = 0x0020
      \<or> c = 0x00A0 \<or> c = 0x1680 \<or> (0x2000 \<le> c \<and> c \<le> 0x200A) \<or> c = 0x2028
      \<or> c = 0x2029 \<or> c = 0x202F \<or> c = 0x205F \<or> c = 0x3000 \<or> c = 0xFEFF)"

definition trim :: "jsstring \<Rightarrow> jsstring" where
  "trim s = rev (dropWhile is_whitespace (rev (dropWhile is_whitespace s)))"

text \<open>
  \<open>xs.slice(0, end)\<close> for strings and arrays: \<open>end\<close> is truncated towards zero, a
  negative \<open>end\<close> counts from the back.
\<close>

definition trunc :: "rat \<Rightarrow> int" where
  "trunc x = (if x < 0 then - \<lfloor>- x\<rfloor> else \<lfloor>x\<rfloor>)"

definition slice0 :: "'a list \<Rightarrow> rat \<Rightarrow> 'a list" where
  "slice0 xs end_index =
     (let e = trunc end_index
      in if e < 0 then take (nat (int (length xs) + e)) xs else take (nat e) xs)"

text \<open>Decimal rendering of a non-negative integer, as a template literal prints it.\<close>

fun digits :: "nat \<Rightarrow> jsstring" where
  "digits n = (if n < 10 then [of_nat (48 + n)] else digits (n div 10) @ [of_nat (48 + n mod 10)])"

declare digits.simps [simp del]

text \<open>
  Values that come out of \<open>JSON.parse\<close>. An object is the list of its own properties;
  the keys of a parsed object are distinct, so \<open>map_of\<close> is property lookup. The numbers
  of a JSON text are finite, hence rationals.
\<close>

datatype json =
    JNull
  | JBool bool
  | JNum rat
  | JStr jsstring
  | JArr "json list"
  | JObj "(jsstring \<times> json) list"

text \<open>A thrown value is always an \<open>Error\<close> object here; only its \<open>message\<close> is read.\<close>

datatype exn = JsError (message: jsstring)

text \<open>
  Property access \<open>v[key]\<close> on a parsed value, for keys that are not built-in properties:
  \<open>undefined\<close> is \<open>None\<close>, reading a property of \<open>null\<close> throws a TypeError.
\<close>

definition TypeError_null :: exn where
  "TypeError_null = JsError (js ''Cannot read properties of null'')"

fun get_prop :: "json \<Rightarrow> jsstring \<Rightarrow> exn + json option" where
  "get_prop JNull key = Inl TypeError_null"
| "get_prop (JObj kvs) key = Inr (map_of kvs key)"
| "get_prop v key = Inr None"

text \<open>Truthiness of a value that may be \<open>undefined\<close>.\<close>

fun truthy :: "json option \<Rightarrow> bool" where
  "truthy None = False"
| "truthy (Some JNull) = False"
| "truthy (Some (JBool b)) = b"
| "truthy (Some (JNum n)) = (n \<noteq> 0)"
| "truthy (Some (JStr s)) = (s \<noteq> [])"
| "truthy (Some v) = True"


section \<open>Conversation and the outside world\<close>

text \<open>
  A tool call as the model emits it (\<open>name\<close>, \<open>args\<close>, \<open>id\<close>; the identifier is optional
  in the library's type, the loop reads it with a non-null assertion), and the four kinds
  of message of a conversation. An assistant message carries its text and its
  \<open>tool_calls\<close>, which may be \<open>undefined\<close>; a tool message carries its text and the
  \<open>tool_call_id\<close> it answers.
\<close>

record ToolCall =
  name :: jsstring
  args :: json
  call_id :: "jsstring option"

datatype chat_message =
    SystemMessage jsstring
  | HumanMessage jsstring
  | AIMessage jsstring "ToolCall list option"
  | ToolMessage jsstring "jsstring option"

text \<open>
  The three request URLs of \<open>api.ts\<close>, by their query parameters (symbol, limit, key), and
  what \<open>fetch\<close> followed by \<open>response.json()\<close> can give: a rejected fetch, or a response
  with its \<open>ok\<close> flag, its status and the parsed body (or the parse error).
\<close>

datatype av_url =
    GLOBAL_QUOTE jsstring jsstring
  | OVERVIEW jsstring jsstring
  | NEWS_SENTIMENT jsstring rat jsstring

datatype http_outcome =
    NetworkError exn
  | HttpResponse bool nat "exn + json"

text \<open>
  A tool call is identified by the iteration of the loop and its position among the calls
  of that iteration, so that the upstream service may answer every request differently.
\<close>

type_synonym moment = "nat \<times> nat"

text \<open>
  Everything the program reads from outside or leaves to a library: the two environment
  variables, the chat model (its reply to the conversation at the given iteration: text
  and tool calls, or a thrown error), the market-data service, \<open>JSON.stringify\<close>,
  \<open>String.prototype.toUpperCase\<close>, and the number parsing and formatting
  (\<open>parseFloat\<close>, \<open>toFixed\<close>, \<open>toLocaleDateString\<close>) that turns fetched data into the
  reply text of a tool, which can throw a TypeError on a missing field. The text of the
  system prompt is a constant of \<open>prompts.ts\<close> whose content no property depends on.
\<close>

record world =
  OPENAI_API_KEY :: "jsstring option"
  ALPHA_VANTAGE_API_KEY :: "jsstring option"
  llm_invoke :: "nat \<Rightarrow> chat_message list \<Rightarrow> exn + jsstring \<times> ToolCall list option"
  fetch :: "moment \<Rightarrow> av_url \<Rightarrow> http_outcome"
  JSON_stringify :: "json \<Rightarrow> jsstring"
  toUpperCase :: "jsstring \<Rightarrow> jsstring"
  format_quote :: "json \<Rightarrow> exn + jsstring"
  format_info :: "json \<Rightarrow> exn + jsstring"
  news_article :: "json \<Rightarrow> exn + json"
  format_news :: "jsstring \<Rightarrow> json list \<Rightarrow> exn + jsstring"
  FINANCE_AGENT_SYSTEM_PROMPT :: jsstring

section \<open>The market-data client (api.ts)\<close>

definition getApiKey :: "world \<Rightarrow> exn + jsstring" where
  "getApiKey w =
     (let missing = JsError (js ''ALPHA_VANTAGE_API_KEY is not set.'' @ [0x0A]
            @ js ''Get a free key at: https://www.alphavantage.co/support/#api-key'' @ [0x0A]
            @ js ''Then add it to your .env.local file.'')
      in case ALPHA_VANTAGE_API_KEY w of
           None \<Rightarrow> Inl missing
         | Some key \<Rightarrow> if key = [] then Inl missing else Inr key)"

definition RATE_LIMITED :: exn where
  "RATE_LIMITED = JsError (js ''RATE_LIMITED: Alpha Vantage free tier allows 25 requests/day'')"

definition api_error :: "nat \<Rightarrow> exn" where
  "api_error status = JsError (js ''Alpha Vantage API error: '' @ digits status)"

text \<open>
  \<open>getStockQuote\<close>: the result is the \<open>Global Quote\<close> object; the conversion of its
  fields to numbers is part of \<open>format_quote\<close>.
\<close>

definition getStockQuote :: "world \<Rightarrow> moment \<Rightarrow> jsstring \<Rightarrow> exn + json" where
  "getStockQuote w t symbol =
     (case getApiKey w of
        Inl e \<Rightarrow> Inl e
      | Inr apiKey \<Rightarrow>
         (case fetch w t (GLOBAL_QUOTE symbol apiKey) of
            NetworkError e \<Rightarrow> Inl e
          | HttpResponse ok status body \<Rightarrow>
              if \<not> ok then Inl (api_error status)
              else (case body of
                Inl e \<Rightarrow> Inl e
              | Inr data \<Rightarrow>
                 (let missing =
                        (if js_includes (JSON_stringify w data) (js ''rate limit'')
                         then Inl RATE_LIMITED
                         else Inl (JsError (js ''No data found for symbol: '' @ symbol)))
                  in case get_prop data (js ''Global Quote'') of
                       Inl e \<Rightarrow> Inl e
                     | Inr None \<Rightarrow> missing
                     | Inr (Some quote) \<Rightarrow>
                         if \<not> truthy (Some quote) then missing
                         else (case get_prop quote (js ''01. symbol'') of
                                 Inl e \<Rightarrow> Inl e
                               | Inr s \<Rightarrow> if \<not> truthy s then missing else Inr quote)))))"

definition getCompanyInfo :: "world \<Rightarrow> moment \<Rightarrow> jsstring \<Rightarrow> exn + json" where
  "getCompanyInfo w t symbol =
     (case getApiKey w of
        Inl e \<Rightarrow> Inl e
      | Inr apiKey \<Rightarrow>
         (case fetch w t (OVERVIEW symbol apiKey) of
            NetworkError e \<Rightarrow> Inl e
          | HttpResponse ok status body \<Rightarrow>
              if \<not> ok then Inl (api_error status)
              else (case body of
                Inl e \<Rightarrow> Inl e
              | Inr data \<Rightarrow>
                 (case get_prop data (js ''Symbol'') of
                    Inl e \<Rightarrow> Inl e
                  | Inr s \<Rightarrow>
                      if \<not> truthy s then
                        (if js_includes (JSON_stringify w data) (js ''rate limit'')
                         then Inl RATE_LIMITED
                         else Inl (JsError (js ''No company info found for symbol: '' @ symbol)))
                      else Inr data))))"

text \<open>\<open>Array.prototype.map\<close> with a callback that can throw: the first throw wins.\<close>

fun map_throwing :: "('a \<Rightarrow> exn + 'b) \<Rightarrow> 'a list \<Rightarrow> exn + 'b list" where
  "map_throwing f [] = Inr []"
| "map_throwing f (x # xs) =
     (case f x of
        Inl e \<Rightarrow> Inl e
      | Inr y \<Rightarrow> (case map_throwing f xs of Inl e \<Rightarrow> Inl e | Inr ys \<Rightarrow> Inr (y # ys)))"

definition TypeError_not_a_function :: exn where
  "TypeError_not_a_function = JsError (js ''data.feed.slice(...).map is not a function'')"

text \<open>
  \<open>getCompanyNews\<close>: \<open>limit\<close> goes into the URL and into \<open>feed.slice(0, limit)\<close> as it
  is. A truthy \<open>feed\<close> that is not an array has no \<open>slice(...).map\<close>: a TypeError,
  whose wording depends on the value and is fixed here.
\<close>

definition getCompanyNews :: "world \<Rightarrow> moment \<Rightarrow> jsstring \<Rightarrow> rat option \<Rightarrow> exn + json list" where
  "getCompanyNews w t symbol limit_arg =
     (let limit = (case limit_arg of None \<Rightarrow> 5 | Some l \<Rightarrow> l)
      in case getApiKey w of
        Inl e \<Rightarrow> Inl e
      | Inr apiKey \<Rightarrow>
         (case fetch w t (NEWS_SENTIMENT symbol limit apiKey) of
            NetworkError e \<Rightarrow> Inl e
          | HttpResponse ok status body \<Rightarrow>
              if \<not> ok then Inl (api_error status)
              else (case body of
                Inl e \<Rightarrow> Inl e
              | Inr data \<Rightarrow>
                 (case get_prop data (js ''feed'') of
                    Inl e \<Rightarrow> Inl e
                  | Inr feed \<Rightarrow>
                      if \<not> truthy feed then
                        (if js_includes (JSON_stringify w data) (js ''rate limit'')
                         then Inl RATE_LIMITED
                         else Inr [])
                      else (case feed of
                              Some (JArr articles) \<Rightarrow> map_throwing (news_article w) (slice0 articles limit)
                            | _ \<Rightarrow> Inl TypeError_not_a_function)))))"


section \<open>The tool adapters (tools/*.ts)\<close>

text \<open>
  A structured tool is a name and \<open>invoke\<close>: the library parses the input against the
  schema of the tool, throws when it does not match, and otherwise runs \<open>func\<close> on the
  parsed value. In the schemas \<open>z.string()\<close> accepts strings only, \<open>toUpperCase()\<close>
  transforms, \<open>z.number().min(1).max(10)\<close> accepts the numbers from 1 to 10 and refuses
  the others, and \<open>default(5)\<close> stands in for an absent property. The wording of the
  error that the library throws is fixed here; nothing depends on it.
\<close>

record tool =
  tool_name :: jsstring
  invoke :: "moment \<Rightarrow> json \<Rightarrow> exn + jsstring"

definition ToolInputParsingException :: exn where
  "ToolInputParsingException = JsError (js ''Received tool input did not match expected schema'')"

definition symbol_schema :: "world \<Rightarrow> json \<Rightarrow> exn + jsstring" where
  "symbol_schema w input =
     (case input of
        JObj kvs \<Rightarrow>
          (case map_of kvs (js ''symbol'') of
             Some (JStr s) \<Rightarrow> Inr (toUpperCase w s)
           | _ \<Rightarrow> Inl ToolInputParsingException)
      | _ \<Rightarrow> Inl ToolInputParsingException)"

definition news_schema :: "world \<Rightarrow> json \<Rightarrow> exn + jsstring \<times> rat" where
  "news_schema w input =
     (case input of
        JObj kvs \<Rightarrow>
          (case map_of kvs (js ''symbol'') of
             Some (JStr s) \<Rightarrow>
               (case map_of kvs (js ''limit'') of
                  None \<Rightarrow> Inr (toUpperCase w s, 5)
                | Some (JNum n) \<Rightarrow>
                    if 1 \<le> n \<and> n \<le> 10 then Inr (toUpperCase w s, n)
                    else Inl ToolInputParsingException
                | Some _ \<Rightarrow> Inl ToolInputParsingException)
           | _ \<Rightarrow> Inl ToolInputParsingException)
      | _ \<Rightarrow> Inl ToolInputParsingException)"

text \<open>The prefixes of the reply texts, as the code units of the source files.\<close>

definition warning_sign :: jsstring where
  "warning_sign = [0x26A0, 0xFE0F]"

definition cross_mark :: jsstring where
  "cross_mark = [0x274C]"

definition news_rate_prefix :: jsstring where
  "news_rate_prefix = [0x201A, 0x00F6, 0x2020, 0x00D4, 0x220F, 0x00E8]"

definition news_error_prefix :: jsstring where
  "news_error_prefix = [0x201A, 0x00F9, 0x00E5]"

definition news_empty_prefix :: jsstring where
  "news_empty_prefix = [0xF8FF, 0x00FC, 0x00EC, 0x221E]"

definition stock_quote_func :: "world \<Rightarrow> moment \<Rightarrow> jsstring \<Rightarrow> jsstring" where
  "stock_quote_func w t symbol =
     (case (case getStockQuote w t symbol of Inl e \<Rightarrow> Inl e | Inr quote \<Rightarrow> format_quote w quote) of
        Inr response \<Rightarrow> response
      | Inl err \<Rightarrow>
          if js_includes (message err) (js ''RATE_LIMITED'') then
            warning_sign @ js '' API rate limit reached. Alpha Vantage free tier allows 25 requests/day. Try again tomorrow or upgrade your API key.''
          else if js_includes (message err) (js ''No data found'') then
            cross_mark @ js '' Could not find stock data for '' @ [0x22] @ symbol @ [0x22]
              @ js ''. Make sure it'' @ [0x27] @ js ''s a valid US stock ticker symbol.''
          else cross_mark @ js '' Error fetching stock quote: '' @ message err)"

definition createStockQuoteTool :: "world \<Rightarrow> tool" where
  "createStockQuoteTool w =
     \<lparr>tool_name = js ''get_stock_quote'',
      invoke = (\<lambda>t input. case symbol_schema w input of
                  Inl e \<Rightarrow> Inl e
                | Inr symbol \<Rightarrow> Inr (stock_quote_func w t symbol))\<rparr>"

definition company_info_func :: "world \<Rightarrow> moment \<Rightarrow> jsstring \<Rightarrow> jsstring" where
  "company_info_func w t symbol =
     (case (case getCompanyInfo w t symbol of Inl e \<Rightarrow> Inl e | Inr info \<Rightarrow> format_info w info) of
        Inr response \<Rightarrow> response
      | Inl err \<Rightarrow>
          if js_includes (message err) (js ''RATE_LIMITED'') then
            warning_sign @ js '' API rate limit reached. Alpha Vantage free tier allows 25 requests/day.''
          else if js_includes (message err) (js ''No company info found'') then
            cross_mark @ js '' Could not find company info for '' @ [0x22] @ symbol @ [0x22]
              @ js ''. Make sure it'' @ [0x27] @ js ''s a valid US stock ticker.''
          else cross_mark @ js '' Error fetching company info: '' @ message err)"

definition createCompanyInfoTool :: "world \<Rightarrow> tool" where
  "createCompanyInfoTool w =
     \<lparr>tool_name = js ''get_company_info'',
      invoke = (\<lambda>t input. case symbol_schema w input of
                  Inl e \<Rightarrow> Inl e
                | Inr symbol \<Rightarrow> Inr (company_info_func w t symbol))\<rparr>"

definition company_news_func :: "world \<Rightarrow> moment \<Rightarrow> jsstring \<Rightarrow> rat option \<Rightarrow> jsstring" where
  "company_news_func w t symbol limit_arg =
     (let limit = (case limit_arg of None \<Rightarrow> 5 | Some l \<Rightarrow> l)
      in case (case getCompanyNews w t symbol (Some limit) of
                 Inl e \<Rightarrow> Inl e
               | Inr articles \<Rightarrow>
                   if length articles = 0
                   then Inr (news_empty_prefix @ js '' No recent news found for '' @ symbol @ js ''.'')
                   else format_news w symbol articles) of
        Inr response \<Rightarrow> response
      | Inl err \<Rightarrow>
          if js_includes (message err) (js ''RATE_LIMITED'') then
            news_rate_prefix @ js '' API rate limit reached. Alpha Vantage free tier allows 25 requests/day.''
          else news_error_prefix @ js '' Error fetching news: '' @ message err)"

definition createCompanyNewsTool :: "world \<Rightarrow> tool" where
  "createCompanyNewsTool w =
     \<lparr>tool_name = js ''get_company_news'',
      invoke = (\<lambda>t input. case news_schema w input of
                  Inl e \<Rightarrow> Inl e
                | Inr (symbol, limit) \<Rightarrow> Inr (company_news_func w t symbol (Some limit)))\<rparr>"


section \<open>The orchestration loop (index.ts)\<close>

definition maxIterations :: nat where
  "maxIterations = 10"

definition fallback_output :: jsstring where
  "fallback_output = js ''I was unable to complete the research. Please try a simpler question.''"

definition getOpenAIKey :: "world \<Rightarrow> exn + jsstring" where
  "getOpenAIKey w =
     (let missing = JsError (js ''OPENAI_API_KEY is not set.'' @ [0x0A]
            @ js ''Get a key at: https://platform.openai.com/api-keys'' @ [0x0A]
            @ js ''Then add it to your .env.local file.'')
      in case OPENAI_API_KEY w of
           None \<Rightarrow> Inl missing
         | Some key \<Rightarrow> if key = [] then Inl missing else Inr key)"

definition create_tools :: "world \<Rightarrow> tool list" where
  "create_tools w = [createStockQuoteTool w, createCompanyInfoTool w, createCompanyNewsTool w]"

text \<open>
  One element of the \<open>Promise.all\<close> fan-out: the first tool of that name is invoked, its
  result or the message of what it threw becomes a tool message tagged with the
  identifier of the call; a name that matches no tool gives \<open>null\<close>.
\<close>

definition run_tool_call :: "tool list \<Rightarrow> moment \<Rightarrow> ToolCall \<Rightarrow> chat_message option" where
  "run_tool_call tools when toolCall =
     (case find (\<lambda>t. tool_name t = name toolCall) tools of
        Some tool \<Rightarrow>
          (case invoke tool when (args toolCall) of
             Inr result \<Rightarrow> Some (ToolMessage result (call_id toolCall))
           | Inl error \<Rightarrow> Some (ToolMessage (js ''Error: '' @ message error) (call_id toolCall)))
      | None \<Rightarrow> None)"

text \<open>
  \<open>Promise.all\<close> keeps the order of the calls; the \<open>for\<close> loop after it pushes the
  results that are not \<open>null\<close>.
\<close>

definition tool_results :: "tool list \<Rightarrow> nat \<Rightarrow> ToolCall list \<Rightarrow> chat_message option list" where
  "tool_results tools i toolCalls =
     map (\<lambda>(j, toolCall). run_tool_call tools (i, j) toolCall) (enumerate 0 toolCalls)"

definition pushed :: "chat_message option list \<Rightarrow> chat_message list" where
  "pushed toolResults = concat (map (\<lambda>result. case result of None \<Rightarrow> [] | Some m \<Rightarrow> [m]) toolResults)"

text \<open>
  What a run of the agent leaves behind: the returned output or the thrown error, the
  \<open>messages\<close> array at the end, the content of \<open>messages\<close> at every \<open>llm.invoke\<close>, in
  order, and the tool invocations made (tool name and input).
\<close>

record AgentRun =
  outcome :: "exn + jsstring"
  conversation :: "chat_message list"
  llm_calls :: "chat_message list list"
  tool_runs :: "(jsstring \<times> json) list"

definition invoked :: "tool list \<Rightarrow> ToolCall list \<Rightarrow> (jsstring \<times> json) list" where
  "invoked tools toolCalls =
     map (\<lambda>toolCall. (name toolCall, args toolCall))
       (filter (\<lambda>toolCall. find (\<lambda>t. tool_name t = name toolCall) tools \<noteq> None) toolCalls)"

function agent_loop :: "world \<Rightarrow> tool list \<Rightarrow> nat \<Rightarrow> chat_message list \<Rightarrow> AgentRun" where
  "agent_loop w tools i messages =
     (if i < maxIterations then
        (case llm_invoke w i messages of
           Inl e \<Rightarrow>
             \<lparr>outcome = Inl e, conversation = messages, llm_calls = [messages], tool_runs = []\<rparr>
         | Inr (content, tool_calls) \<Rightarrow>
             (let messages1 = messages @ [AIMessage content tool_calls];
                  final = \<lparr>outcome = Inr content, conversation = messages1,
                           llm_calls = [messages], tool_runs = []\<rparr>
              in case tool_calls of
                   None \<Rightarrow> final
                 | Some toolCalls \<Rightarrow>
                     if length toolCalls = 0 then final
                     else
                       (let toolResults = tool_results tools i toolCalls;
                            messages2 = messages1 @ pushed toolResults;
                            rest = agent_loop w tools (i + 1) messages2
                        in rest\<lparr>llm_calls := messages # llm_calls rest,
                                tool_runs := invoked tools toolCalls @ tool_runs rest\<rparr>)))
      else
        \<lparr>outcome = Inr fallback_output, conversation = messages, llm_calls = [], tool_runs = []\<rparr>)"
  by pat_completeness auto
termination
  by (relation "measure (\<lambda>(w, tools, i, messages). maxIterations - i)") auto

declare agent_loop.simps [simp del]

text \<open>
  \<open>runFinanceAgent\<close>: the tools are created, then the model client, which reads the key
  and throws when it is missing, then the conversation of two messages.
\<close>

definition runFinanceAgent :: "world \<Rightarrow> jsstring \<Rightarrow> AgentRun" where
  "runFinanceAgent w query =
     (let tools = create_tools w
      in case getOpenAIKey w of
           Inl e \<Rightarrow> \<lparr>outcome = Inl e, conversation = [], llm_calls = [], tool_runs = []\<rparr>
         | Inr key \<Rightarrow>
             agent_loop w tools 0 [SystemMessage (FINANCE_AGENT_SYSTEM_PROMPT w), HumanMessage query])"

section \<open>The endpoint (route.ts)\<close>

datatype stream_type = Thought | Message | Error

record StreamMessage =
  type :: stream_type
  content :: jsstring

text \<open>
  The controller of the response stream: the frames enqueued so far, in order, and
  whether it has been closed. \<open>enqueue\<close> and \<open>close\<close> on a closed controller throw a
  TypeError. A frame is the text \<open>data: <JSON>\<close> of its \<open>StreamMessage\<close>; it is kept
  here as the \<open>StreamMessage\<close>.
\<close>

record controller =
  queue :: "StreamMessage list"
  closed :: bool

definition TypeError_closed :: exn where
  "TypeError_closed = JsError (js ''Invalid state: Controller is already closed'')"

definition send :: "StreamMessage \<Rightarrow> controller \<Rightarrow> exn option \<times> controller" where
  "send data c = (if closed c then (Some TypeError_closed, c) else (None, c\<lparr>queue := queue c @ [data]\<rparr>))"

definition close :: "controller \<Rightarrow> exn option \<times> controller" where
  "close c = (if closed c then (Some TypeError_closed, c) else (None, c\<lparr>closed := True\<rparr>))"

text \<open>\<open>send\<close> then \<open>controller.close()\<close> then \<open>return\<close>, as both rejections do.\<close>

definition reject :: "jsstring \<Rightarrow> controller \<Rightarrow> exn option \<times> controller" where
  "reject text c =
     (case send \<lparr>type = Error, content = text\<rparr> c of
        (Some e, c1) \<Rightarrow> (Some e, c1)
      | (None, c1) \<Rightarrow> close c1)"

text \<open>
  The inner \<open>try\<close>: \<open>body = await request.json(); message = body.message\<close>. A request
  is given by what \<open>request.json()\<close> does with its body: the parsed value or the error.
\<close>

definition read_message :: "exn + json \<Rightarrow> exn + json option" where
  "read_message request = (case request of Inl e \<Rightarrow> Inl e | Inr body \<Rightarrow> get_prop body (js ''message''))"

text \<open>
  The body of the outer \<open>try\<close>: what it threw if it threw, the controller, and the run
  of the agent if there was one.
\<close>

definition try_block :: "world \<Rightarrow> exn + json \<Rightarrow> controller \<Rightarrow> exn option \<times> controller \<times> AgentRun option" where
  "try_block w request c =
     (case read_message request of
        Inl e \<Rightarrow>
          (case reject (js ''Invalid request body'') c of (r, c1) \<Rightarrow> (r, c1, None))
      | Inr msg \<Rightarrow>
          (case msg of
             Some (JStr s) \<Rightarrow>
               if \<not> truthy msg \<or> length (trim s) = 0 then
                 (case reject (js ''Please provide a message'') c of (r, c1) \<Rightarrow> (r, c1, None))
               else
                 (let query = take 500 (trim s)
                  in case send \<lparr>type = Thought, content = js ''Researching...''\<rparr> c of
                       (Some e, c1) \<Rightarrow> (Some e, c1, None)
                     | (None, c1) \<Rightarrow>
                         (let result = runFinanceAgent w query
                          in case outcome result of
                               Inl e \<Rightarrow> (Some e, c1, Some result)
                             | Inr output \<Rightarrow>
                                 (case send \<lparr>type = Message, content = output\<rparr> c1 of
                                    (r, c2) \<Rightarrow> (r, c2, Some result))))
           | _ \<Rightarrow>
               (case reject (js ''Please provide a message'') c of (r, c1) \<Rightarrow> (r, c1, None))))"

definition catch_block :: "exn \<Rightarrow> controller \<Rightarrow> exn option \<times> controller" where
  "catch_block error c =
     (if js_includes (message error) (js ''OPENAI_API_KEY'') then
        send \<lparr>type = Error, content = js ''OpenAI API key is not configured.''\<rparr> c
      else if js_includes (message error) (js ''ALPHA_VANTAGE_API_KEY'') then
        send \<lparr>type = Error, content = js ''Alpha Vantage API key is not configured.''\<rparr> c
      else
        send \<lparr>type = Error, content = js ''Something went wrong. Please try again.''\<rparr> c)"

text \<open>
  What a request leaves behind: the frames enqueued on the controller, in order, whether
  \<open>controller.close()\<close> has been called, the error that escaped \<open>start\<close> if one did,
  and the run of the agent if there was one.
\<close>

record response =
  frames :: "StreamMessage list"
  stream_closed :: bool
  start_error :: "exn option"
  agent :: "AgentRun option"

definition POST :: "world \<Rightarrow> exn + json \<Rightarrow> response" where
  "POST w request =
     (case try_block w request \<lparr>queue = [], closed = False\<rparr> of
        (thrown, c1, run) \<Rightarrow>
          (case (case thrown of None \<Rightarrow> (None, c1) | Some err \<Rightarrow> catch_block err c1) of
             (rethrown, c2) \<Rightarrow>
               (case close c2 of
                  (failed, c3) \<Rightarrow>
                    \<lparr>frames = queue c3, stream_closed = closed c3,
                     start_error = (case failed of None \<Rightarrow> rethrown | Some e \<Rightarrow> Some e),
                     agent = run\<rparr>)))"

section \<open>Notions used in the statements\<close>

text \<open>The text of the error frame that the \<open>catch\<close> block of the endpoint sends.\<close>

definition category :: "exn \<Rightarrow> jsstring" where
  "category error =
     (if js_includes (message error) (js ''OPENAI_API_KEY'') then js ''OpenAI API key is not configured.''
      else if js_includes (message error) (js ''ALPHA_VANTAGE_API_KEY'') then js ''Alpha Vantage API key is not configured.''
      else js ''Something went wrong. Please try again.'')"

text \<open>A terminal frame is a final answer or an error.\<close>

definition terminal :: "StreamMessage \<Rightarrow> bool" where
  "terminal f = (type f = Message \<or> type f = Error)"

text \<open>A call is registered when \<open>tools.find\<close> finds a tool of its name.\<close>

definition registered :: "tool list \<Rightarrow> ToolCall \<Rightarrow> bool" where
  "registered tools toolCall = (find (\<lambda>t. tool_name t = name toolCall) tools \<noteq> None)"

definition requests_registered :: "tool list \<Rightarrow> chat_message list \<Rightarrow> bool" where
  "requests_registered tools ms =
     list_all (\<lambda>m. case m of
                  AIMessage c (Some calls) \<Rightarrow> list_all (registered tools) calls
                | _ \<Rightarrow> True) ms"

text \<open>
  \<open>answers calls results\<close>: the messages are tool messages, one for each call, in the
  order of the calls, each tagged with the identifier of its call.
\<close>

fun answers :: "ToolCall list \<Rightarrow> chat_message list \<Rightarrow> bool" where
  "answers [] [] = True"
| "answers (toolCall # calls) (ToolMessage r tid # ms) = (tid = call_id toolCall \<and> answers calls ms)"
| "answers _ _ = False"

text \<open>
  \<open>orphan_free seen ms\<close>: reading the conversation in the order in which it was
  appended, every tool message carries an identifier of \<open>seen\<close> or of a tool call of an
  assistant message before it.
\<close>

fun orphan_free :: "jsstring option list \<Rightarrow> chat_message list \<Rightarrow> bool" where
  "orphan_free seen [] = True"
| "orphan_free seen (AIMessage c tcs # ms) =
     orphan_free (seen @ (case tcs of None \<Rightarrow> [] | Some calls \<Rightarrow> map call_id calls)) ms"
| "orphan_free seen (ToolMessage r tid # ms) = (tid \<in> set seen \<and> orphan_free seen ms)"
| "orphan_free seen (m # ms) = orphan_free seen ms"

text \<open>The conversation at the next invocation, when the reply carries tool calls.\<close>

definition next_messages :: "tool list \<Rightarrow> nat \<Rightarrow> chat_message list \<Rightarrow> jsstring \<Rightarrow> ToolCall list \<Rightarrow> chat_message list" where
  "next_messages tools i ms c calls = ms @ AIMessage c (Some calls) # pushed (tool_results tools i calls)"

text \<open>The identifiers of the tool calls that the assistant messages of a conversation carry.\<close>

fun requested_ids :: "chat_message list \<Rightarrow> jsstring option list" where
  "requested_ids [] = []"
| "requested_ids (AIMessage c tcs # ms) =
     (case tcs of None \<Rightarrow> [] | Some calls \<Rightarrow> map call_id calls) @ requested_ids ms"
| "requested_ids (m # ms) = requested_ids ms"

section \<open>Concrete worlds and requests\<close>

text \<open>
  A world with both keys set, a market-data service that is unreachable and trivial
  formatting, for a given chat model; and the request whose body is \<open>{message: s}\<close>.
\<close>

definition world_with :: "(nat \<Rightarrow> chat_message list \<Rightarrow> exn + jsstring \<times> ToolCall list option) \<Rightarrow> world" where
  "world_with model =
     \<lparr>OPENAI_API_KEY = Some (js ''sk-test''), ALPHA_VANTAGE_API_KEY = Some (js ''demo''),
      llm_invoke = model,
      fetch = (\<lambda>t u. NetworkError (JsError (js ''fetch failed''))),
      JSON_stringify = (\<lambda>d. []), toUpperCase = (\<lambda>s. s), format_quote = (\<lambda>q. Inr []),
      format_info = (\<lambda>q. Inr []), news_article = Inr, format_news = (\<lambda>s a. Inr []),
      FINANCE_AGENT_SYSTEM_PROMPT = js ''You are a financial research analyst assistant.''\<rparr>"

definition request_with :: "jsstring \<Rightarrow> exn + json" where
  "request_with s = Inr (JObj [(js ''message'', JStr s)])"

text \<open>A model that answers at once, repeating the last message of the conversation.\<close>

definition echo_world :: world where
  "echo_world =
     world_with (\<lambda>i ms. Inr (case last ms of HumanMessage q \<Rightarrow> q | _ \<Rightarrow> [], None))"

text \<open>A model that asks for a quote of NVDA at every turn.\<close>

definition quote_call :: "jsstring \<Rightarrow> ToolCall" where
  "quote_call ident =
     \<lparr>name = js ''get_stock_quote'', args = JObj [(js ''symbol'', JStr (js ''NVDA''))],
      call_id = Some ident\<rparr>"

definition busy_world :: world where
  "busy_world = world_with (\<lambda>i ms. Inr ([], Some [quote_call (js ''call_1'')]))"

text \<open>A model that asks for two quotes at once, then answers.\<close>

definition two_calls_world :: world where
  "two_calls_world =
     world_with (\<lambda>i ms. if i = 0 then Inr ([], Some [quote_call (js ''a''), quote_call (js ''b'')])
                         else Inr (js ''done'', None))"

text \<open>A model that asks for a tool that does not exist, then answers.\<close>

definition unknown_call :: ToolCall where
  "unknown_call = \<lparr>name = js ''get_weather'', args = JObj [], call_id = Some (js ''call_9'')\<rparr>"

definition unknown_tool_world :: world where
  "unknown_tool_world =
     world_with (\<lambda>i ms. if i = 0 then Inr ([], Some [unknown_call]) else Inr (js ''done'', None))"


text \<open>
  A market-data service that answers every request with its quota notice; the stand-in
  for \<open>JSON.stringify\<close> gives the text of the first property.
\<close>

definition quota_notice :: json where
  "quota_notice =
     JObj [(js ''Information'', JStr (js ''Our standard API rate limit is 25 requests per day.''))]"

definition quota_world :: world where
  "quota_world =
     (world_with (\<lambda>i ms. Inr ([], None)))
       \<lparr>fetch := (\<lambda>t u. HttpResponse True 200 (Inr quota_notice)),
        JSON_stringify := (\<lambda>d. case d of JObj ((k, JStr v) # kvs) \<Rightarrow> v | _ \<Rightarrow> [])\<rparr>"



section \<open>Trimming\<close>

lemma trim_Nil: "trim [] = []"
  by (simp add: trim_def)

lemma trim_all_whitespace: "\<forall>c\<in>set s. is_whitespace c \<Longrightarrow> trim s = []"
  by (auto simp: trim_def dest: set_dropWhileD)



section \<open>The endpoint, path by path\<close>

lemma reject_open:
  "\<not> closed c \<Longrightarrow>
   reject text c = (None, c\<lparr>queue := queue c @ [\<lparr>type = Error, content = text\<rparr>], closed := True\<rparr>)"
  by (simp add: reject_def send_def close_def)

lemma catch_block_open:
  "\<not> closed c \<Longrightarrow>
   catch_block err c = (None, c\<lparr>queue := queue c @ [\<lparr>type = Error, content = category err\<rparr>]\<rparr>)"
  by (simp add: catch_block_def send_def category_def)

text \<open>
  A body that does not parse, or that is \<open>null\<close>: one error frame; the second
  \<open>controller.close()\<close>, in the \<open>finally\<close>, throws.
\<close>

lemma POST_invalid:
  "read_message request = Inl e \<Longrightarrow>
   POST w request =
     \<lparr>frames = [\<lparr>type = Error, content = js ''Invalid request body''\<rparr>],
      stream_closed = True, start_error = Some TypeError_closed, agent = None\<rparr>"
  by (simp add: POST_def try_block_def reject_open close_def)

lemma POST_no_message:
  "read_message request = Inr msg \<Longrightarrow> \<forall>s. msg = Some (JStr s) \<longrightarrow> trim s = [] \<Longrightarrow>
   POST w request =
     \<lparr>frames = [\<lparr>type = Error, content = js ''Please provide a message''\<rparr>],
      stream_closed = True, start_error = Some TypeError_closed, agent = None\<rparr>"
  by (simp add: POST_def try_block_def reject_open close_def split: option.splits json.splits)

lemma POST_accepted:
  assumes "read_message request = Inr (Some (JStr s))" and "trim s \<noteq> []"
  shows "POST w request =
     \<lparr>frames = [\<lparr>type = Thought, content = js ''Researching...''\<rparr>,
                (case outcome (runFinanceAgent w (take 500 (trim s))) of
                   Inr output \<Rightarrow> \<lparr>type = Message, content = output\<rparr>
                 | Inl err \<Rightarrow> \<lparr>type = Error, content = category err\<rparr>)],
      stream_closed = True, start_error = None,
      agent = Some (runFinanceAgent w (take 500 (trim s)))\<rparr>"
proof -
  from assms(2) have "s \<noteq> []" by (auto simp: trim_Nil)
  with assms show ?thesis
    by (simp add: POST_def try_block_def Let_def send_def close_def catch_block_open split: sum.splits)
qed

lemma read_message_request_with: "read_message (request_with s) = Inr (Some (JStr s))"
  by (simp add: read_message_def request_with_def)

section \<open>Whitespace-only messages\<close>

text \<open>
  Claim C10. A request whose message consists of whitespace only is answered exactly as
  a request whose message is the empty string: the message is trimmed before its length
  is tested, so the only frame is the error frame \<open>Please provide a message\<close> and the
  agent is not run, hence no model invocation and no tool execution.
\<close>

theorem whitespace_message_is_empty:
  assumes "read_message request = Inr (Some (JStr s))"
    and "\<forall>c\<in>set s. is_whitespace c"
    and "read_message empty_request = Inr (Some (JStr []))"
  shows "POST w request = POST w empty_request
     \<and> frames (POST w request) = [\<lparr>type = Error, content = js ''Please provide a message''\<rparr>]
     \<and> stream_closed (POST w request)
     \<and> agent (POST w request) = None"
proof -
  from assms(2) have "trim s = []" by (rule trim_all_whitespace)
  with assms(1) have a: "POST w request =
     \<lparr>frames = [\<lparr>type = Error, content = js ''Please provide a message''\<rparr>],
      stream_closed = True, start_error = Some TypeError_closed, agent = None\<rparr>"
    by (intro POST_no_message) auto
  from assms(3) have b: "POST w empty_request =
     \<lparr>frames = [\<lparr>type = Error, content = js ''Please provide a message''\<rparr>],
      stream_closed = True, start_error = Some TypeError_closed, agent = None\<rparr>"
    by (intro POST_no_message) (auto simp: trim_Nil)
  from a b show ?thesis by simp
qed

theorem whitespace_message_is_empty_witness:
  "is_whitespace 0x20 \<and> is_whitespace 0x09 \<and> is_whitespace 0x3000
   \<and> POST echo_world (request_with [0x20, 0x09, 0x3000]) = POST echo_world (request_with [])
   \<and> frames (POST echo_world (request_with [0x20, 0x09, 0x3000]))
       = [\<lparr>type = Error, content = js ''Please provide a message''\<rparr>]
   \<and> agent (POST echo_world (request_with [0x20, 0x09, 0x3000])) = None"
proof -
  have each: "is_whitespace 0x20" "is_whitespace 0x09" "is_whitespace 0x3000"
    by (simp_all add: is_whitespace_def)
  then have ws: "\<forall>c\<in>set [0x20, 0x09, 0x3000]. is_whitespace c"
    by simp
  from whitespace_message_is_empty [OF read_message_request_with ws read_message_request_with, of echo_world]
  show ?thesis using each by blast
qed

section \<open>One terminal frame\<close>

text \<open>
  On every path of the endpoint exactly one terminal frame (a final answer or an error)
  is enqueued, it is the last frame enqueued, and \<open>controller.close()\<close> has been
  called. This is a statement about what is enqueued; what the stream delivers also
  depends on whether \<open>start\<close> ends normally.
\<close>

lemma one_terminal_frame_enqueued:
  "length (filter terminal (frames (POST w request))) = 1
   \<and> terminal (last (frames (POST w request)))
   \<and> stream_closed (POST w request)
   \<and> (\<exists>f. terminal f
        \<and> (frames (POST w request) = [f]
           \<or> frames (POST w request) = [\<lparr>type = Thought, content = js ''Researching...''\<rparr>, f]))"
proof (cases "read_message request")
  case (Inl e)
  then show ?thesis
    by (simp add: POST_invalid terminal_def)
next
  case (Inr msg)
  show ?thesis
  proof (cases "\<forall>s. msg = Some (JStr s) \<longrightarrow> trim s = []")
    case True
    with Inr show ?thesis
      by (simp add: POST_no_message terminal_def)
  next
    case False
    then obtain s where s: "msg = Some (JStr s)" "trim s \<noteq> []" by auto
    let ?f = "case outcome (runFinanceAgent w (take 500 (trim s))) of
                Inr output \<Rightarrow> \<lparr>type = Message, content = output\<rparr>
              | Inl err \<Rightarrow> \<lparr>type = Error, content = category err\<rparr>"
    have t: "terminal ?f" by (simp add: terminal_def split: sum.splits)
    have "frames (POST w request) = [\<lparr>type = Thought, content = js ''Researching...''\<rparr>, ?f]"
      and "stream_closed (POST w request)"
      using Inr s by (simp_all add: POST_accepted)
    with t show ?thesis by (auto simp: terminal_def)
  qed
qed

text \<open>A second \<open>controller.close()\<close> always throws.\<close>

lemma close_twice:
  "close (snd (close c)) = (Some TypeError_closed, snd (close c))"
  by (simp add: close_def)

text \<open>
  Claim C2, at the inputs where the code departs from it. A request that is rejected
  (its body does not parse or is \<open>null\<close>, or its message is absent, not a string, or
  empty after trimming) has its error frame enqueued and the controller closed by the
  rejecting branch, which then returns; the \<open>finally\<close> block closes the controller a
  second time, and that call throws a TypeError out of \<open>start\<close>. So \<open>start\<close> does not
  end normally on these requests, and that the stream emits the frame and ends closed
  is not what the code secures. On an accepted request the controller is closed once,
  by the \<open>finally\<close> block, after the progress notice and the single terminal frame, and
  \<open>start\<close> ends normally.
\<close>

theorem second_close_throws:
  "(\<forall>e. read_message request = Inl e
       \<longrightarrow> start_error (POST w request) = Some TypeError_closed
         \<and> frames (POST w request) = [\<lparr>type = Error, content = js ''Invalid request body''\<rparr>])
   \<and> (\<forall>msg. read_message request = Inr msg \<and> (\<forall>s. msg = Some (JStr s) \<longrightarrow> trim s = [])
       \<longrightarrow> start_error (POST w request) = Some TypeError_closed
         \<and> frames (POST w request) = [\<lparr>type = Error, content = js ''Please provide a message''\<rparr>])
   \<and> (\<forall>s. read_message request = Inr (Some (JStr s)) \<and> trim s \<noteq> []
       \<longrightarrow> start_error (POST w request) = None
         \<and> stream_closed (POST w request)
         \<and> (\<exists>f. terminal f
              \<and> frames (POST w request) = [\<lparr>type = Thought, content = js ''Researching...''\<rparr>, f]))"
proof -
  have a: "start_error (POST w request) = Some TypeError_closed
         \<and> frames (POST w request) = [\<lparr>type = Error, content = js ''Invalid request body''\<rparr>]"
    if "read_message request = Inl e" for e
    using POST_invalid [OF that, of w] by simp
  have b: "start_error (POST w request) = Some TypeError_closed
         \<and> frames (POST w request) = [\<lparr>type = Error, content = js ''Please provide a message''\<rparr>]"
    if "read_message request = Inr msg" "\<forall>s. msg = Some (JStr s) \<longrightarrow> trim s = []" for msg
    using POST_no_message [OF that, of w] by simp
  have c: "start_error (POST w request) = None
         \<and> stream_closed (POST w request)
         \<and> (\<exists>f. terminal f
              \<and> frames (POST w request) = [\<lparr>type = Thought, content = js ''Researching...''\<rparr>, f])"
    if "read_message request = Inr (Some (JStr s))" "trim s \<noteq> []" for s
  proof -
    let ?f = "case outcome (runFinanceAgent w (take 500 (trim s))) of
                Inr output \<Rightarrow> \<lparr>type = Message, content = output\<rparr>
              | Inl err \<Rightarrow> \<lparr>type = Error, content = category err\<rparr>"
    have "terminal ?f" by (simp add: terminal_def split: sum.splits)
    moreover have "frames (POST w request) = [\<lparr>type = Thought, content = js ''Researching...''\<rparr>, ?f]"
      "start_error (POST w request) = None" "stream_closed (POST w request)"
      using POST_accepted [OF that, of w] by simp_all
    ultimately show ?thesis by blast
  qed
  from a b c show ?thesis by blast
qed

theorem second_close_throws_witness:
  "start_error (POST echo_world (Inr (JObj []))) = Some TypeError_closed
   \<and> frames (POST echo_world (Inr (JObj [])))
       = [\<lparr>type = Error, content = js ''Please provide a message''\<rparr>]
   \<and> start_error (POST echo_world (request_with [])) = Some TypeError_closed
   \<and> start_error (POST echo_world (Inr JNull)) = Some TypeError_closed
   \<and> start_error (POST echo_world (request_with (js ''hi''))) = None"
proof -
  have r1: "read_message (Inr (JObj [])) = Inr None"
    and r3: "read_message (Inr JNull) = Inl TypeError_null"
    by (simp_all add: read_message_def)
  have q: "trim (js ''hi'') \<noteq> []"
    by code_simp
  from second_close_throws [of "Inr (JObj [])" echo_world] r1
  have a: "start_error (POST echo_world (Inr (JObj []))) = Some TypeError_closed
      \<and> frames (POST echo_world (Inr (JObj []))) = [\<lparr>type = Error, content = js ''Please provide a message''\<rparr>]"
    by simp
  from second_close_throws [of "request_with []" echo_world] read_message_request_with [of "[]"] trim_Nil
  have b: "start_error (POST echo_world (request_with [])) = Some TypeError_closed"
    by simp
  from second_close_throws [of "Inr JNull" echo_world] r3
  have c: "start_error (POST echo_world (Inr JNull)) = Some TypeError_closed"
    by simp
  from second_close_throws [of "request_with (js ''hi'')" echo_world] read_message_request_with [of "js ''hi''"] q
  have d: "start_error (POST echo_world (request_with (js ''hi''))) = None"
    by blast
  from a b c d show ?thesis by blast
qed

section \<open>The loop, case by case\<close>

lemma agent_loop_stop:
  "\<not> i < maxIterations \<Longrightarrow>
   agent_loop w tools i ms =
     \<lparr>outcome = Inr fallback_output, conversation = ms, llm_calls = [], tool_runs = []\<rparr>"
  by (simp add: agent_loop.simps)

lemma agent_loop_throw:
  "i < maxIterations \<Longrightarrow> llm_invoke w i ms = Inl e \<Longrightarrow>
   agent_loop w tools i ms =
     \<lparr>outcome = Inl e, conversation = ms, llm_calls = [ms], tool_runs = []\<rparr>"
  by (simp add: agent_loop.simps)

lemma agent_loop_final:
  "i < maxIterations \<Longrightarrow> llm_invoke w i ms = Inr (c, tcs) \<Longrightarrow> tcs = None \<or> tcs = Some [] \<Longrightarrow>
   agent_loop w tools i ms =
     \<lparr>outcome = Inr c, conversation = ms @ [AIMessage c tcs], llm_calls = [ms], tool_runs = []\<rparr>"
  by (auto simp add: agent_loop.simps)

lemma agent_loop_continue:
  "i < maxIterations \<Longrightarrow> llm_invoke w i ms = Inr (c, Some calls) \<Longrightarrow> calls \<noteq> [] \<Longrightarrow>
   agent_loop w tools i ms =
     (agent_loop w tools (Suc i) (next_messages tools i ms c calls))
       \<lparr>llm_calls := ms # llm_calls (agent_loop w tools (Suc i) (next_messages tools i ms c calls)),
        tool_runs := invoked tools calls
           @ tool_runs (agent_loop w tools (Suc i) (next_messages tools i ms c calls))\<rparr>"
  by (subst agent_loop.simps) (simp add: Let_def next_messages_def)

lemma agent_loop_cases:
  obtains (Stop) "\<not> i < maxIterations"
  | (Throw) e where "i < maxIterations" "llm_invoke w i ms = Inl e"
  | (Final) c tcs where "i < maxIterations" "llm_invoke w i ms = Inr (c, tcs)" "tcs = None \<or> tcs = Some []"
  | (Continue) c calls where "i < maxIterations" "llm_invoke w i ms = Inr (c, Some calls)" "calls \<noteq> []"
proof (cases "i < maxIterations")
  case False
  then show ?thesis by (rule Stop)
next
  case lt: True
  show ?thesis
  proof (cases "llm_invoke w i ms")
    case (Inl e)
    with lt show ?thesis by (rule Throw)
  next
    case (Inr reply)
    obtain c tcs where reply: "reply = (c, tcs)" by (cases reply)
    show ?thesis
    proof (cases "tcs = None \<or> tcs = Some []")
      case True
      with lt Inr reply show ?thesis by (auto intro: Final)
    next
      case False
      then obtain calls where "tcs = Some calls" "calls \<noteq> []" by auto
      with lt Inr reply show ?thesis by (auto intro: Continue)
    qed
  qed
qed

section \<open>Invariants of the loop\<close>

lemma llm_calls_bound: "length (llm_calls (agent_loop w tools i ms)) \<le> maxIterations - i"
proof (induction "maxIterations - i" arbitrary: i ms)
  case 0
  then show ?case by (simp add: agent_loop_stop)
next
  case (Suc k)
  then have lt: "i < maxIterations" and k: "k = maxIterations - Suc i" by auto
  show ?case
  proof (cases rule: agent_loop_cases [where i=i and w=w and ms=ms])
    case Stop
    with lt show ?thesis by simp
  next
    case (Throw e)
    then show ?thesis by (simp add: agent_loop_throw)
  next
    case (Final c tcs)
    then show ?thesis by (simp add: agent_loop_final)
  next
    case (Continue c calls)
    then show ?thesis
      using Suc.hyps(1) [OF k, of "next_messages tools i ms c calls"] lt
      by (simp add: agent_loop_continue)
  qed
qed

lemma llm_calls_first:
  "i < maxIterations \<Longrightarrow> \<exists>rest. llm_calls (agent_loop w tools i ms) = ms # rest"
  by (cases rule: agent_loop_cases [where i=i and w=w and ms=ms])
     (simp_all add: agent_loop_throw agent_loop_final agent_loop_continue)

lemma conversation_extends:
  "prefix ms (conversation (agent_loop w tools i ms))
   \<and> (\<forall>s\<in>set (llm_calls (agent_loop w tools i ms)).
         prefix ms s \<and> prefix s (conversation (agent_loop w tools i ms)))"
proof (induction "maxIterations - i" arbitrary: i ms)
  case 0
  then show ?case by (simp add: agent_loop_stop)
next
  case (Suc k)
  then have lt: "i < maxIterations" and k: "k = maxIterations - Suc i" by auto
  show ?case
  proof (cases rule: agent_loop_cases [where i=i and w=w and ms=ms])
    case Stop
    with lt show ?thesis by simp
  next
    case (Throw e)
    then show ?thesis by (simp add: agent_loop_throw)
  next
    case (Final c tcs)
    then show ?thesis by (simp add: agent_loop_final)
  next
    case (Continue c calls)
    let ?ms' = "next_messages tools i ms c calls"
    have p: "prefix ms ?ms'" by (simp add: next_messages_def)
    from Suc.hyps(1) [OF k, of ?ms'] p Continue show ?thesis
      by (auto simp: agent_loop_continue intro: prefix_order.trans)
  qed
qed

lemma llm_calls_step:
  "Suc n < length (llm_calls (agent_loop w tools i ms)) \<Longrightarrow>
   \<exists>c calls. llm_invoke w (i + n) (llm_calls (agent_loop w tools i ms) ! n) = Inr (c, Some calls)
      \<and> calls \<noteq> []
      \<and> llm_calls (agent_loop w tools i ms) ! Suc n
          = next_messages tools (i + n) (llm_calls (agent_loop w tools i ms) ! n) c calls"
proof (induction "maxIterations - i" arbitrary: i ms n)
  case 0
  then show ?case by (simp add: agent_loop_stop)
next
  case (Suc k)
  then have lt: "i < maxIterations" and k: "k = maxIterations - Suc i" by auto
  show ?case
  proof (cases rule: agent_loop_cases [where i=i and w=w and ms=ms])
    case Stop
    with lt show ?thesis by simp
  next
    case (Throw e)
    with Suc.prems show ?thesis by (simp add: agent_loop_throw)
  next
    case (Final c tcs)
    with Suc.prems show ?thesis by (simp add: agent_loop_final)
  next
    case (Continue c calls)
    let ?ms' = "next_messages tools i ms c calls"
    let ?rest = "agent_loop w tools (Suc i) ?ms'"
    have L: "llm_calls (agent_loop w tools i ms) = ms # llm_calls ?rest"
      using Continue by (simp add: agent_loop_continue)
    show ?thesis
    proof (cases n)
      case 0
      with Suc.prems L have ne: "llm_calls ?rest \<noteq> []" by auto
      then have "Suc i < maxIterations"
        by (auto simp: agent_loop_stop intro: ccontr)
      from llm_calls_first [OF this, of w tools ?ms'] obtain rest
        where "llm_calls ?rest = ?ms' # rest" by blast
      with 0 L Continue show ?thesis by simp
    next
      case (Suc n')
      with Suc.prems L have "Suc n' < length (llm_calls ?rest)" by simp
      from Suc.hyps(1) [OF k this] Suc L show ?thesis by simp
    qed
  qed
qed

section \<open>Tool results\<close>

lemma registered_iff: "registered tools toolCall \<longleftrightarrow> name toolCall \<in> tool_name ` set tools"
  by (auto simp: registered_def find_None_iff intro: rev_image_eqI)

lemma run_tool_call_unregistered:
  "\<not> registered tools toolCall \<Longrightarrow> run_tool_call tools when toolCall = None"
  by (simp add: registered_def run_tool_call_def)

lemma run_tool_call_registered:
  "registered tools toolCall \<Longrightarrow>
   \<exists>r. run_tool_call tools when toolCall = Some (ToolMessage r (call_id toolCall))"
  by (auto simp: registered_def run_tool_call_def split: option.splits sum.splits)

lemma answers_pushed_enumerate:
  "answers (filter (registered tools) calls)
     (pushed (map (\<lambda>(j, toolCall). run_tool_call tools (i, j) toolCall) (enumerate k calls)))"
proof (induction calls arbitrary: k)
  case Nil
  show ?case by (simp add: pushed_def)
next
  case (Cons toolCall calls)
  show ?case
  proof (cases "registered tools toolCall")
    case True
    from run_tool_call_registered [OF this, of "(i, k)"] obtain r
      where "run_tool_call tools (i, k) toolCall = Some (ToolMessage r (call_id toolCall))" ..
    with True Cons [of "Suc k"] show ?thesis by (simp add: pushed_def)
  next
    case False
    with run_tool_call_unregistered [OF this, of "(i, k)"] Cons [of "Suc k"]
    show ?thesis by (simp add: pushed_def)
  qed
qed

lemma answers_tool_results:
  "answers (filter (registered tools) calls) (pushed (tool_results tools i calls))"
  unfolding tool_results_def by (rule answers_pushed_enumerate)

lemma answers_length: "answers calls rs \<Longrightarrow> length rs = length calls"
  by (induction calls rs rule: answers.induct) auto

lemma answers_Nil: "answers [] rs \<Longrightarrow> rs = []"
  by (cases rs) auto

lemma answers_orphan_free:
  "answers calls rs \<Longrightarrow> call_id ` set calls \<subseteq> set seen \<Longrightarrow> orphan_free seen rs"
  by (induction calls rs rule: answers.induct) auto

lemma answers_nth:
  "answers calls rs \<Longrightarrow> j < length calls \<Longrightarrow> \<exists>r. rs ! j = ToolMessage r (call_id (calls ! j))"
proof (induction calls rs arbitrary: j rule: answers.induct)
  case (2 toolCall calls r tid ms)
  then show ?case by (cases j) auto
qed auto

lemma orphan_free_append:
  "orphan_free seen (xs @ ys) \<longleftrightarrow> orphan_free seen xs \<and> orphan_free (seen @ requested_ids xs) ys"
proof (induction xs arbitrary: seen)
  case Nil
  show ?case by simp
next
  case (Cons x xs)
  show ?case by (cases x) (simp_all add: Cons)
qed

lemma orphan_free_next:
  assumes "orphan_free seen ms"
  shows "orphan_free seen (next_messages tools i ms c calls)"
proof -
  have "answers (filter (registered tools) calls) (pushed (tool_results tools i calls))"
    by (rule answers_tool_results)
  then have "orphan_free ((seen @ requested_ids ms) @ map call_id calls) (pushed (tool_results tools i calls))"
    by (rule answers_orphan_free) auto
  with assms show ?thesis
    by (simp add: next_messages_def orphan_free_append)
qed

lemma orphan_free_conversation:
  "orphan_free seen ms \<Longrightarrow> orphan_free seen (conversation (agent_loop w tools i ms))"
proof (induction "maxIterations - i" arbitrary: i ms)
  case 0
  then show ?case by (simp add: agent_loop_stop)
next
  case (Suc k)
  then have lt: "i < maxIterations" and k: "k = maxIterations - Suc i" by auto
  show ?case
  proof (cases rule: agent_loop_cases [where i=i and w=w and ms=ms])
    case Stop
    with lt show ?thesis by simp
  next
    case (Throw e)
    with Suc.prems show ?thesis by (simp add: agent_loop_throw)
  next
    case (Final c tcs)
    with Suc.prems show ?thesis by (simp add: agent_loop_final orphan_free_append)
  next
    case (Continue c calls)
    from Suc.hyps(1) [OF k orphan_free_next [OF Suc.prems, of tools i c calls]] Continue
    show ?thesis by (simp add: agent_loop_continue)
  qed
qed

lemma orphan_free_nth:
  "orphan_free seen ms \<Longrightarrow> k < length ms \<Longrightarrow> ms ! k = ToolMessage r tid \<Longrightarrow>
   tid \<in> set seen
   \<or> (\<exists>j<k. \<exists>c calls toolCall. ms ! j = AIMessage c (Some calls) \<and> toolCall \<in> set calls
         \<and> call_id toolCall = tid)"
proof (induction ms arbitrary: seen k)
  case Nil
  then show ?case by simp
next
  case (Cons m ms)
  let ?before = "\<lambda>xs n. \<exists>j<n. \<exists>c calls toolCall. xs ! j = AIMessage c (Some calls)
      \<and> toolCall \<in> set calls \<and> call_id toolCall = tid"
  show ?case
  proof (cases k)
    case 0
    with Cons.prems show ?thesis by simp
  next
    case (Suc k')
    with Cons.prems have k': "k' < length ms" "ms ! k' = ToolMessage r tid" by simp_all
    have shift: "?before (m # ms) k" if "?before ms k'"
    proof -
      from that obtain j c calls toolCall where "j < k'" "ms ! j = AIMessage c (Some calls)"
        "toolCall \<in> set calls" "call_id toolCall = tid" by blast
      with Suc have "Suc j < k \<and> (m # ms) ! Suc j = AIMessage c (Some calls)
        \<and> toolCall \<in> set calls \<and> call_id toolCall = tid" by simp
      then show ?thesis by blast
    qed
    have plain: ?thesis if "orphan_free seen ms"
      using Cons.IH [OF that k'] shift by blast
    show ?thesis
    proof (cases m)
      case (AIMessage c tcs)
      let ?new = "case tcs of None \<Rightarrow> [] | Some calls \<Rightarrow> map call_id calls"
      from Cons.prems(1) AIMessage have "orphan_free (seen @ ?new) ms" by simp
      from Cons.IH [OF this k'] consider "tid \<in> set seen" | "tid \<in> set ?new" | "?before ms k'"
        by auto
      then show ?thesis
      proof cases
        case 1
        then show ?thesis by simp
      next
        case 2
        then obtain calls toolCall where "tcs = Some calls" "toolCall \<in> set calls" "call_id toolCall = tid"
          by (auto split: option.splits)
        with AIMessage Suc have "0 < k \<and> (m # ms) ! 0 = AIMessage c (Some calls) \<and> toolCall \<in> set calls
            \<and> call_id toolCall = tid" by simp
        then show ?thesis by blast
      next
        case 3
        with shift show ?thesis by blast
      qed
    next
      case (ToolMessage r' tid')
      with Cons.prems(1) show ?thesis by (intro plain) simp
    next
      case (SystemMessage x)
      with Cons.prems(1) show ?thesis by (intro plain) simp
    next
      case (HumanMessage x)
      with Cons.prems(1) show ?thesis by (intro plain) simp
    qed
  qed
qed

lemma requests_registeredD:
  "requests_registered tools ms \<Longrightarrow> AIMessage c (Some calls) \<in> set ms \<Longrightarrow> list_all (registered tools) calls"
  by (auto simp: requests_registered_def list_all_iff split: chat_message.splits option.splits)

lemma all_registered_filter: "list_all (registered tools) calls \<Longrightarrow> filter (registered tools) calls = calls"
  by (simp add: list_all_iff)

lemma runFinanceAgent_no_key:
  "getOpenAIKey w = Inl e \<Longrightarrow>
   runFinanceAgent w query = \<lparr>outcome = Inl e, conversation = [], llm_calls = [], tool_runs = []\<rparr>"
  by (simp add: runFinanceAgent_def)

lemma runFinanceAgent_key:
  "getOpenAIKey w = Inr key \<Longrightarrow>
   runFinanceAgent w query =
     agent_loop w (create_tools w) 0 [SystemMessage (FINANCE_AGENT_SYSTEM_PROMPT w), HumanMessage query]"
  by (simp add: runFinanceAgent_def)

section \<open>No orphan results\<close>

text \<open>
  Claim C4. In a run of the loop in which every tool call that the model requested names
  a tool of the registry: every tool message of the conversation is preceded, at an
  earlier position, by an assistant message that carries a tool call of the same
  identifier; the conversation given to each model invocation is an initial segment of
  the final conversation, so positions are times of appending; and the conversation given
  to invocation \<open>n + 1\<close> is the conversation given to invocation \<open>n\<close>, then the reply
  of invocation \<open>n\<close>, then one tool message for each of its calls, in order, each tagged
  with the identifier of its call. So all results of an iteration are in the conversation
  before the next model invocation.
\<close>

theorem tool_results_answer_calls:
  assumes run: "run = runFinanceAgent w query"
    and reg: "requests_registered (create_tools w) (conversation run)"
  shows "(\<forall>k<length (conversation run). \<forall>r tid. conversation run ! k = ToolMessage r tid \<longrightarrow>
            (\<exists>j<k. \<exists>c calls toolCall. conversation run ! j = AIMessage c (Some calls)
                \<and> toolCall \<in> set calls \<and> call_id toolCall = tid))
     \<and> (\<forall>s\<in>set (llm_calls run). prefix s (conversation run))
     \<and> (\<forall>n. Suc n < length (llm_calls run) \<longrightarrow>
            (\<exists>c calls results. llm_invoke w n (llm_calls run ! n) = Inr (c, Some calls)
                \<and> llm_calls run ! Suc n = llm_calls run ! n @ AIMessage c (Some calls) # results
                \<and> answers calls results))"
proof (cases "getOpenAIKey w")
  case (Inl e)
  with run show ?thesis by (simp add: runFinanceAgent_no_key)
next
  case (Inr key)
  let ?init = "[SystemMessage (FINANCE_AGENT_SYSTEM_PROMPT w), HumanMessage query]"
  let ?tools = "create_tools w"
  from run Inr have loop: "run = agent_loop w ?tools 0 ?init"
    by (simp add: runFinanceAgent_key)
  have "orphan_free [] ?init" by simp
  then have "orphan_free [] (conversation run)"
    unfolding loop by (rule orphan_free_conversation)
  then have a: "\<forall>k<length (conversation run). \<forall>r tid. conversation run ! k = ToolMessage r tid \<longrightarrow>
            (\<exists>j<k. \<exists>c calls toolCall. conversation run ! j = AIMessage c (Some calls)
                \<and> toolCall \<in> set calls \<and> call_id toolCall = tid)"
    using orphan_free_nth [of "[]" "conversation run"] by simp
  have b: "\<forall>s\<in>set (llm_calls run). prefix s (conversation run)"
    unfolding loop using conversation_extends [of ?init w ?tools 0] by blast
  have c: "\<exists>c calls results. llm_invoke w n (llm_calls run ! n) = Inr (c, Some calls)
                \<and> llm_calls run ! Suc n = llm_calls run ! n @ AIMessage c (Some calls) # results
                \<and> answers calls results" if n: "Suc n < length (llm_calls run)" for n
  proof -
    from llm_calls_step [of n w ?tools 0 ?init] n loop obtain c calls
      where inv: "llm_invoke w n (llm_calls run ! n) = Inr (c, Some calls)"
        and nxt: "llm_calls run ! Suc n = next_messages ?tools n (llm_calls run ! n) c calls"
      by auto
    from n have "llm_calls run ! Suc n \<in> set (llm_calls run)" by simp
    with b have "prefix (llm_calls run ! Suc n) (conversation run)" by blast
    then have "set (llm_calls run ! Suc n) \<subseteq> set (conversation run)"
      by (rule set_mono_prefix)
    with nxt have "AIMessage c (Some calls) \<in> set (conversation run)"
      by (auto simp: next_messages_def)
    with reg have "list_all (registered ?tools) calls" by (rule requests_registeredD)
    then have "answers calls (pushed (tool_results ?tools n calls))"
      using answers_tool_results [of ?tools calls n] by (simp add: all_registered_filter)
    with inv nxt show ?thesis unfolding next_messages_def by blast
  qed
  from a b c show ?thesis by blast
qed

theorem tool_results_answer_calls_witness:
  "requests_registered (create_tools two_calls_world)
      (conversation (runFinanceAgent two_calls_world (js ''hi'')))
   \<and> length (llm_calls (runFinanceAgent two_calls_world (js ''hi''))) = 2
   \<and> prefix (llm_calls (runFinanceAgent two_calls_world (js ''hi'')) ! 1)
        (conversation (runFinanceAgent two_calls_world (js ''hi'')))
   \<and> (\<exists>c calls results.
         llm_calls (runFinanceAgent two_calls_world (js ''hi'')) ! Suc 0
           = llm_calls (runFinanceAgent two_calls_world (js ''hi'')) ! 0 @ AIMessage c (Some calls) # results
         \<and> answers calls results)"
proof -
  let ?run = "runFinanceAgent two_calls_world (js ''hi'')"
  have reg: "requests_registered (create_tools two_calls_world) (conversation ?run)"
    by code_simp
  have len: "length (llm_calls ?run) = 2"
    by code_simp
  note t = tool_results_answer_calls [OF refl reg]
  from len have "llm_calls ?run ! 1 \<in> set (llm_calls ?run)" by simp
  with t have p: "prefix (llm_calls ?run ! 1) (conversation ?run)" by blast
  from len have "Suc 0 < length (llm_calls ?run)" by simp
  with t have "\<exists>c calls results. llm_invoke two_calls_world 0 (llm_calls ?run ! 0) = Inr (c, Some calls)
       \<and> llm_calls ?run ! Suc 0 = llm_calls ?run ! 0 @ AIMessage c (Some calls) # results
       \<and> answers calls results" by blast
  then have "\<exists>c calls results.
       llm_calls ?run ! Suc 0 = llm_calls ?run ! 0 @ AIMessage c (Some calls) # results
       \<and> answers calls results" by blast
  with reg len p show ?thesis by blast
qed

section \<open>How a run ends\<close>

lemma last_invocation:
  assumes "llm_calls (agent_loop w tools i ms) \<noteq> []"
  shows "case llm_invoke w (i + length (llm_calls (agent_loop w tools i ms)) - 1)
              (last (llm_calls (agent_loop w tools i ms))) of
           Inl e \<Rightarrow>
             outcome (agent_loop w tools i ms) = Inl e
             \<and> conversation (agent_loop w tools i ms) = last (llm_calls (agent_loop w tools i ms))
         | Inr (c, tcs) \<Rightarrow>
             if tcs = None \<or> tcs = Some [] then
               outcome (agent_loop w tools i ms) = Inr c
               \<and> conversation (agent_loop w tools i ms)
                   = last (llm_calls (agent_loop w tools i ms)) @ [AIMessage c tcs]
             else
               outcome (agent_loop w tools i ms) = Inr fallback_output
               \<and> i + length (llm_calls (agent_loop w tools i ms)) = maxIterations
               \<and> conversation (agent_loop w tools i ms)
                   = next_messages tools (maxIterations - 1)
                       (last (llm_calls (agent_loop w tools i ms))) c (the tcs)"
  using assms
proof (induction "maxIterations - i" arbitrary: i ms)
  case 0
  then show ?case by (simp add: agent_loop_stop)
next
  case (Suc k)
  then have lt: "i < maxIterations" and k: "k = maxIterations - Suc i" by auto
  show ?case
  proof (cases rule: agent_loop_cases [where i=i and w=w and ms=ms])
    case Stop
    with lt show ?thesis by simp
  next
    case (Throw e)
    then show ?thesis by (simp add: agent_loop_throw)
  next
    case (Final c tcs)
    then show ?thesis by (auto simp add: agent_loop_final)
  next
    case (Continue c calls)
    let ?ms' = "next_messages tools i ms c calls"
    let ?rest = "agent_loop w tools (Suc i) ?ms'"
    have run: "outcome (agent_loop w tools i ms) = outcome ?rest"
      "conversation (agent_loop w tools i ms) = conversation ?rest"
      "llm_calls (agent_loop w tools i ms) = ms # llm_calls ?rest"
      using Continue by (simp_all add: agent_loop_continue)
    show ?thesis
    proof (cases "llm_calls ?rest = []")
      case True
      have "\<not> Suc i < maxIterations"
      proof
        assume "Suc i < maxIterations"
        from llm_calls_first [OF this, of w tools ?ms'] True show False by simp
      qed
      with lt have "maxIterations = Suc i" by simp
      then have stop: "?rest = \<lparr>outcome = Inr fallback_output, conversation = ?ms',
          llm_calls = [], tool_runs = []\<rparr>" and i: "maxIterations - 1 = i"
        by (simp_all add: agent_loop_stop)
      have "llm_calls (agent_loop w tools i ms) = [ms]"
        using run True by simp
      moreover have "outcome (agent_loop w tools i ms) = Inr fallback_output"
        "conversation (agent_loop w tools i ms) = ?ms'"
        using run stop by simp_all
      ultimately show ?thesis
        using Continue i \<open>maxIterations = Suc i\<close> by simp
    next
      case False
      have idx: "i + length (ms # llm_calls ?rest) - 1 = Suc i + length (llm_calls ?rest) - 1"
        and len: "i + length (ms # llm_calls ?rest) = Suc i + length (llm_calls ?rest)"
        by simp_all
      have lst: "last (ms # llm_calls ?rest) = last (llm_calls ?rest)"
        using False by simp
      show ?thesis
        unfolding run idx len lst by (rule Suc.hyps(1) [OF k False])
    qed
  qed
qed


lemma loop_thrown:
  assumes "llm_calls (agent_loop w tools i ms) \<noteq> []"
    and "llm_invoke w (i + length (llm_calls (agent_loop w tools i ms)) - 1)
           (last (llm_calls (agent_loop w tools i ms))) = Inl e"
  shows "outcome (agent_loop w tools i ms) = Inl e
     \<and> conversation (agent_loop w tools i ms) = last (llm_calls (agent_loop w tools i ms))"
  using last_invocation [OF assms(1)] assms(2) by simp

lemma loop_answered:
  assumes "llm_calls (agent_loop w tools i ms) \<noteq> []"
    and "llm_invoke w (i + length (llm_calls (agent_loop w tools i ms)) - 1)
           (last (llm_calls (agent_loop w tools i ms))) = Inr (c, tcs)"
    and "tcs = None \<or> tcs = Some []"
  shows "outcome (agent_loop w tools i ms) = Inr c
     \<and> conversation (agent_loop w tools i ms)
         = last (llm_calls (agent_loop w tools i ms)) @ [AIMessage c tcs]"
  using last_invocation [OF assms(1)] assms(2,3) by auto

lemma loop_exhausted:
  assumes "llm_calls (agent_loop w tools i ms) \<noteq> []"
    and "llm_invoke w (i + length (llm_calls (agent_loop w tools i ms)) - 1)
           (last (llm_calls (agent_loop w tools i ms))) = Inr (c, Some calls)"
    and "calls \<noteq> []"
  shows "outcome (agent_loop w tools i ms) = Inr fallback_output
     \<and> i + length (llm_calls (agent_loop w tools i ms)) = maxIterations
     \<and> conversation (agent_loop w tools i ms)
         = next_messages tools (maxIterations - 1) (last (llm_calls (agent_loop w tools i ms))) c calls"
  using last_invocation [OF assms(1)] assms(2,3) by simp


section \<open>The iteration ceiling\<close>

text \<open>
  Claim C1. For every query and every behaviour of the model, a run of the loop invokes
  the model at most 10 times. If the tenth invocation takes place and its reply carries
  tool calls, the loop returns the fixed text
  \<open>I was unable to complete the research. Please try a simpler question.\<close> as its
  output, and the endpoint, for a request whose message is that query, sends it in a
  \<open>message\<close> frame after the progress notice: no error frame.
\<close>

theorem at_most_ten_invocations:
  "length (llm_calls (runFinanceAgent w query)) \<le> 10
   \<and> (\<forall>c calls.
        length (llm_calls (runFinanceAgent w query)) = 10
        \<and> llm_invoke w 9 (llm_calls (runFinanceAgent w query) ! 9) = Inr (c, Some calls)
        \<and> calls \<noteq> []
        \<longrightarrow> outcome (runFinanceAgent w query) = Inr fallback_output
          \<and> fallback_output = js ''I was unable to complete the research. Please try a simpler question.''
          \<and> (\<forall>request s.
                read_message request = Inr (Some (JStr s)) \<and> trim s \<noteq> [] \<and> take 500 (trim s) = query
                \<longrightarrow> frames (POST w request)
                      = [\<lparr>type = Thought, content = js ''Researching...''\<rparr>,
                         \<lparr>type = Message, content = fallback_output\<rparr>]))"
proof (cases "getOpenAIKey w")
  case (Inl e)
  then show ?thesis by (simp add: runFinanceAgent_no_key)
next
  case (Inr key)
  let ?init = "[SystemMessage (FINANCE_AGENT_SYSTEM_PROMPT w), HumanMessage query]"
  let ?run = "agent_loop w (create_tools w) 0 ?init"
  from Inr have run: "runFinanceAgent w query = ?run" by (rule runFinanceAgent_key)
  have bound: "length (llm_calls ?run) \<le> 10"
    using llm_calls_bound [of w "create_tools w" 0 ?init] by (simp add: maxIterations_def)
  have fb: "outcome ?run = Inr fallback_output"
    if len: "length (llm_calls ?run) = 10"
      and inv: "llm_invoke w 9 (llm_calls ?run ! 9) = Inr (c, Some calls)"
      and ne: "calls \<noteq> []" for c calls
  proof -
    from len have ne': "llm_calls ?run \<noteq> []" by auto
    from len have "0 + length (llm_calls ?run) - 1 = 9" by simp
    moreover from len ne' have "last (llm_calls ?run) = llm_calls ?run ! 9"
      by (simp add: last_conv_nth)
    ultimately have "llm_invoke w (0 + length (llm_calls ?run) - 1) (last (llm_calls ?run))
        = Inr (c, Some calls)"
      using inv by (simp only:)
    from loop_exhausted [OF ne' this ne] show ?thesis by blast
  qed
  have post: "frames (POST w request)
        = [\<lparr>type = Thought, content = js ''Researching...''\<rparr>, \<lparr>type = Message, content = fallback_output\<rparr>]"
    if "outcome ?run = Inr fallback_output" "read_message request = Inr (Some (JStr s))"
       "trim s \<noteq> []" "take 500 (trim s) = query" for request s
    using that run by (simp add: POST_accepted)
  show ?thesis
    unfolding run using bound fb post by (auto simp: fallback_output_def)
qed

theorem at_most_ten_invocations_witness:
  "length (llm_calls (runFinanceAgent busy_world (js ''hi''))) = 10
   \<and> outcome (runFinanceAgent busy_world (js ''hi'')) = Inr fallback_output
   \<and> frames (POST busy_world (request_with (js ''hi'')))
       = [\<lparr>type = Thought, content = js ''Researching...''\<rparr>,
          \<lparr>type = Message, content = fallback_output\<rparr>]"
proof -
  let ?run = "runFinanceAgent busy_world (js ''hi'')"
  have len: "length (llm_calls ?run) = 10"
    by code_simp
  have inv: "llm_invoke busy_world 9 (llm_calls ?run ! 9) = Inr ([], Some [quote_call (js ''call_1'')])"
    by (simp add: busy_world_def world_with_def)
  have q: "trim (js ''hi'') \<noteq> []" "take 500 (trim (js ''hi'')) = js ''hi''"
    by code_simp+
  note t = at_most_ten_invocations [of busy_world "js ''hi''"]
  from t len inv have out: "outcome ?run = Inr fallback_output"
    by blast
  from t len inv have "\<forall>request s.
      read_message request = Inr (Some (JStr s)) \<and> trim s \<noteq> [] \<and> take 500 (trim s) = js ''hi''
      \<longrightarrow> frames (POST busy_world request)
            = [\<lparr>type = Thought, content = js ''Researching...''\<rparr>,
               \<lparr>type = Message, content = fallback_output\<rparr>]"
    by blast
  with q read_message_request_with [of "js ''hi''"]
  have "frames (POST busy_world (request_with (js ''hi'')))
       = [\<lparr>type = Thought, content = js ''Researching...''\<rparr>,
          \<lparr>type = Message, content = fallback_output\<rparr>]"
    by blast
  with len out show ?thesis by blast
qed


section \<open>Unknown tool names\<close>

lemma registered_create_tools:
  "registered (create_tools w) toolCall \<longleftrightarrow>
   name toolCall \<in> {js ''get_stock_quote'', js ''get_company_info'', js ''get_company_news''}"
  by (auto simp: registered_iff create_tools_def createStockQuoteTool_def
      createCompanyInfoTool_def createCompanyNewsTool_def)

lemma invoked_names: "(n, a) \<in> set (invoked tools calls) \<Longrightarrow> \<exists>toolCall\<in>set calls. registered tools toolCall \<and> name toolCall = n"
  by (auto simp: invoked_def registered_def)

text \<open>
  Claim C3. When a reply of the model requests a tool call whose name is none of
  \<open>get_stock_quote\<close>, \<open>get_company_info\<close>, \<open>get_company_news\<close>: the call gives no tool
  message and no tool is invoked for it; the tool messages pushed in that iteration
  answer exactly the calls of registered tools (none at all when no call is registered);
  and the loop does not fail on it: it goes on to the next iteration with the
  conversation so extended.
\<close>

theorem unknown_tool_dropped:
  assumes unknown: "name toolCall \<notin> {js ''get_stock_quote'', js ''get_company_info'', js ''get_company_news''}"
    and lt: "i < maxIterations"
    and inv: "llm_invoke w i ms = Inr (c, Some calls)"
    and mem: "toolCall \<in> set calls"
  shows "run_tool_call (create_tools w) (i, j) toolCall = None
     \<and> answers (filter (registered (create_tools w)) calls) (pushed (tool_results (create_tools w) i calls))
     \<and> \<not> registered (create_tools w) toolCall
     \<and> (\<forall>a. (name toolCall, a) \<notin> set (invoked (create_tools w) calls))
     \<and> ((\<forall>other\<in>set calls. \<not> registered (create_tools w) other)
          \<longrightarrow> pushed (tool_results (create_tools w) i calls) = [])
     \<and> agent_loop w (create_tools w) i ms =
         (agent_loop w (create_tools w) (Suc i)
             (ms @ AIMessage c (Some calls) # pushed (tool_results (create_tools w) i calls)))
           \<lparr>llm_calls := ms # llm_calls (agent_loop w (create_tools w) (Suc i)
               (ms @ AIMessage c (Some calls) # pushed (tool_results (create_tools w) i calls))),
            tool_runs := invoked (create_tools w) calls @ tool_runs (agent_loop w (create_tools w) (Suc i)
               (ms @ AIMessage c (Some calls) # pushed (tool_results (create_tools w) i calls)))\<rparr>"
proof -
  let ?tools = "create_tools w"
  from unknown have nr: "\<not> registered ?tools toolCall"
    by (simp add: registered_create_tools)
  then have a: "run_tool_call ?tools (i, j) toolCall = None"
    by (rule run_tool_call_unregistered)
  have b: "answers (filter (registered ?tools) calls) (pushed (tool_results ?tools i calls))"
    by (rule answers_tool_results)
  have d: "\<forall>a. (name toolCall, a) \<notin> set (invoked ?tools calls)"
    using unknown by (auto dest!: invoked_names simp: registered_create_tools)
  have e: "pushed (tool_results ?tools i calls) = []" if "\<forall>other\<in>set calls. \<not> registered ?tools other"
  proof -
    from that have "filter (registered ?tools) calls = []" by (simp add: filter_empty_conv)
    with b show ?thesis by (simp add: answers_Nil)
  qed
  from mem have "calls \<noteq> []" by auto
  from agent_loop_continue [OF lt inv this, of ?tools]
  have f: "agent_loop w ?tools i ms =
         (agent_loop w ?tools (Suc i) (ms @ AIMessage c (Some calls) # pushed (tool_results ?tools i calls)))
           \<lparr>llm_calls := ms # llm_calls (agent_loop w ?tools (Suc i)
               (ms @ AIMessage c (Some calls) # pushed (tool_results ?tools i calls))),
            tool_runs := invoked ?tools calls @ tool_runs (agent_loop w ?tools (Suc i)
               (ms @ AIMessage c (Some calls) # pushed (tool_results ?tools i calls)))\<rparr>"
    by (simp add: next_messages_def)
  from a b nr d e f show ?thesis by blast
qed

theorem unknown_tool_dropped_witness:
  "run_tool_call (create_tools unknown_tool_world) (0, 0) unknown_call = None
   \<and> pushed (tool_results (create_tools unknown_tool_world) 0 [unknown_call]) = []
   \<and> conversation (runFinanceAgent unknown_tool_world (js ''hi''))
       = [SystemMessage (js ''You are a financial research analyst assistant.''),
          HumanMessage (js ''hi''),
          AIMessage [] (Some [unknown_call]),
          AIMessage (js ''done'') None]
   \<and> outcome (runFinanceAgent unknown_tool_world (js ''hi'')) = Inr (js ''done'')"
proof -
  have unknown: "name unknown_call \<notin> {js ''get_stock_quote'', js ''get_company_info'', js ''get_company_news''}"
    by (simp add: unknown_call_def js_def)
  have lt: "0 < maxIterations" by (simp add: maxIterations_def)
  have inv: "llm_invoke unknown_tool_world 0
        [SystemMessage (js ''You are a financial research analyst assistant.''), HumanMessage (js ''hi'')]
      = Inr ([], Some [unknown_call])"
    by (simp add: unknown_tool_world_def world_with_def)
  have mem: "unknown_call \<in> set [unknown_call]" by simp
  note t = unknown_tool_dropped [OF unknown lt inv mem, of 0]
  from t have a: "run_tool_call (create_tools unknown_tool_world) (0, 0) unknown_call = None"
    by blast
  from t have b: "pushed (tool_results (create_tools unknown_tool_world) 0 [unknown_call]) = []"
    by simp
  have c: "conversation (runFinanceAgent unknown_tool_world (js ''hi''))
       = [SystemMessage (js ''You are a financial research analyst assistant.''),
          HumanMessage (js ''hi''),
          AIMessage [] (Some [unknown_call]),
          AIMessage (js ''done'') None]"
    and d: "outcome (runFinanceAgent unknown_tool_world (js ''hi'')) = Inr (js ''done'')"
    by code_simp+
  from a b c d show ?thesis by blast
qed

section \<open>Growth of the conversation\<close>

lemma length_pushed_tool_results:
  "length (pushed (tool_results tools i calls)) = length (filter (registered tools) calls)"
  using answers_tool_results [of tools calls i] by (rule answers_length)

text \<open>
  The claim as stated, two entries for each iteration, fails for a reply with two calls
  of a registered tool (three entries) and for a reply whose only call names no tool (one
  entry).
\<close>

theorem two_entries_counterexample:
  "length (llm_calls (runFinanceAgent two_calls_world (js ''hi''))) = 2
   \<and> length (llm_calls (runFinanceAgent two_calls_world (js ''hi'')) ! 0) = 2
   \<and> length (llm_calls (runFinanceAgent two_calls_world (js ''hi'')) ! 1) = 5
   \<and> length (llm_calls (runFinanceAgent two_calls_world (js ''hi'')) ! 1)
       \<noteq> length (llm_calls (runFinanceAgent two_calls_world (js ''hi'')) ! 0) + 2
   \<and> length (llm_calls (runFinanceAgent unknown_tool_world (js ''hi''))) = 2
   \<and> length (llm_calls (runFinanceAgent unknown_tool_world (js ''hi'')) ! 1)
       = length (llm_calls (runFinanceAgent unknown_tool_world (js ''hi'')) ! 0) + 1"
  by code_simp

text \<open>
  Claim C8, as amended. A run starts from the conversation of two entries, the system
  and the user message (or, when the model key is missing, never enters the loop and
  has no conversation). Every iteration whose assistant turn carries tool calls grows
  the conversation by the assistant message followed by one tool message for each
  requested call that names a registered tool, in the order of the calls: by exactly two
  entries only when exactly one such call is requested. This holds from one model
  invocation to the next and also for the tenth iteration, after which the run ends with
  the fallback output. The iteration whose assistant turn carries no tool calls grows
  the conversation by that one assistant message and ends the run with its text as
  output; an iteration whose model invocation throws adds nothing and ends the run with
  that error.
\<close>

theorem conversation_growth:
  assumes run: "run = runFinanceAgent w query"
  shows "(llm_calls run = [] \<longrightarrow> conversation run = [] \<and> outcome run = getOpenAIKey w \<and> isl (getOpenAIKey w))
     \<and> (llm_calls run \<noteq> [] \<longrightarrow>
          hd (llm_calls run) = [SystemMessage (FINANCE_AGENT_SYSTEM_PROMPT w), HumanMessage query])
     \<and> (\<forall>n. Suc n < length (llm_calls run) \<longrightarrow>
            (\<exists>c calls. llm_invoke w n (llm_calls run ! n) = Inr (c, Some calls) \<and> calls \<noteq> []
               \<and> llm_calls run ! Suc n
                   = llm_calls run ! n @ AIMessage c (Some calls)
                       # pushed (tool_results (create_tools w) n calls)
               \<and> answers (filter (registered (create_tools w)) calls)
                     (pushed (tool_results (create_tools w) n calls))
               \<and> length (llm_calls run ! Suc n)
                   = length (llm_calls run ! n) + 1 + length (filter (registered (create_tools w)) calls)))
     \<and> (\<forall>c tcs. llm_calls run \<noteq> []
            \<and> llm_invoke w (length (llm_calls run) - 1) (last (llm_calls run)) = Inr (c, tcs)
            \<and> (tcs = None \<or> tcs = Some [])
            \<longrightarrow> outcome run = Inr c \<and> conversation run = last (llm_calls run) @ [AIMessage c tcs])
     \<and> (\<forall>c calls. llm_calls run \<noteq> []
            \<and> llm_invoke w (length (llm_calls run) - 1) (last (llm_calls run)) = Inr (c, Some calls)
            \<and> calls \<noteq> []
            \<longrightarrow> length (llm_calls run) = 10 \<and> outcome run = Inr fallback_output
              \<and> conversation run
                  = last (llm_calls run) @ AIMessage c (Some calls)
                      # pushed (tool_results (create_tools w) 9 calls)
              \<and> answers (filter (registered (create_tools w)) calls)
                    (pushed (tool_results (create_tools w) 9 calls))
              \<and> length (conversation run)
                  = length (last (llm_calls run)) + 1 + length (filter (registered (create_tools w)) calls))
     \<and> (\<forall>e. llm_calls run \<noteq> []
            \<and> llm_invoke w (length (llm_calls run) - 1) (last (llm_calls run)) = Inl e
            \<longrightarrow> outcome run = Inl e \<and> conversation run = last (llm_calls run))"
proof (cases "getOpenAIKey w")
  case (Inl e)
  with run show ?thesis by (simp add: runFinanceAgent_no_key)
next
  case (Inr key)
  let ?init = "[SystemMessage (FINANCE_AGENT_SYSTEM_PROMPT w), HumanMessage query]"
  let ?tools = "create_tools w"
  from run Inr have loop: "run = agent_loop w ?tools 0 ?init"
    by (simp add: runFinanceAgent_key)
  have lt: "0 < maxIterations" by (simp add: maxIterations_def)
  from llm_calls_first [OF lt, of w ?tools ?init] obtain rest
    where first: "llm_calls run = ?init # rest" unfolding loop by blast
  then have z: "llm_calls run = [] \<longrightarrow> conversation run = [] \<and> outcome run = getOpenAIKey w \<and> isl (getOpenAIKey w)"
    and h: "llm_calls run \<noteq> [] \<longrightarrow> hd (llm_calls run) = ?init"
    by simp_all
  have a: "\<exists>c calls. llm_invoke w n (llm_calls run ! n) = Inr (c, Some calls) \<and> calls \<noteq> []
               \<and> llm_calls run ! Suc n
                   = llm_calls run ! n @ AIMessage c (Some calls) # pushed (tool_results ?tools n calls)
               \<and> answers (filter (registered ?tools) calls) (pushed (tool_results ?tools n calls))
               \<and> length (llm_calls run ! Suc n)
                   = length (llm_calls run ! n) + 1 + length (filter (registered ?tools) calls)"
    if n: "Suc n < length (llm_calls run)" for n
  proof -
    from llm_calls_step [of n w ?tools 0 ?init] n loop obtain c calls
      where 1: "llm_invoke w n (llm_calls run ! n) = Inr (c, Some calls)" "calls \<noteq> []"
        and 2: "llm_calls run ! Suc n
            = llm_calls run ! n @ AIMessage c (Some calls) # pushed (tool_results ?tools n calls)"
      by (auto simp: next_messages_def)
    from 2 have "length (llm_calls run ! Suc n)
        = length (llm_calls run ! n) + 1 + length (filter (registered ?tools) calls)"
      by (simp add: length_pushed_tool_results)
    with 1 2 answers_tool_results [of ?tools calls n] show ?thesis by blast
  qed
  have idx: "0 + length (llm_calls run) - 1 = length (llm_calls run) - 1" by simp
  have b: "outcome run = Inr c \<and> conversation run = last (llm_calls run) @ [AIMessage c tcs]"
    if "llm_calls run \<noteq> []"
      and "llm_invoke w (length (llm_calls run) - 1) (last (llm_calls run)) = Inr (c, tcs)"
      and "tcs = None \<or> tcs = Some []" for c tcs
    using loop_answered [of w ?tools 0 ?init c tcs] that unfolding loop by simp
  have d: "outcome run = Inl e \<and> conversation run = last (llm_calls run)"
    if "llm_calls run \<noteq> []"
      and "llm_invoke w (length (llm_calls run) - 1) (last (llm_calls run)) = Inl e" for e
    using loop_thrown [of w ?tools 0 ?init e] that unfolding loop by simp
  have x: "length (llm_calls run) = 10 \<and> outcome run = Inr fallback_output
              \<and> conversation run
                  = last (llm_calls run) @ AIMessage c (Some calls) # pushed (tool_results ?tools 9 calls)
              \<and> answers (filter (registered ?tools) calls) (pushed (tool_results ?tools 9 calls))
              \<and> length (conversation run)
                  = length (last (llm_calls run)) + 1 + length (filter (registered ?tools) calls)"
    if ne: "llm_calls run \<noteq> []"
      and inv: "llm_invoke w (length (llm_calls run) - 1) (last (llm_calls run)) = Inr (c, Some calls)"
      and calls: "calls \<noteq> []" for c calls
  proof -
    from loop_exhausted [of w ?tools 0 ?init c calls] ne inv calls
    have 1: "outcome run = Inr fallback_output" and 2: "length (llm_calls run) = maxIterations"
      and 3: "conversation run = next_messages ?tools (maxIterations - 1) (last (llm_calls run)) c calls"
      unfolding loop by simp_all
    from 3 have 4: "conversation run
        = last (llm_calls run) @ AIMessage c (Some calls) # pushed (tool_results ?tools 9 calls)"
      by (simp add: next_messages_def maxIterations_def)
    then have "length (conversation run)
        = length (last (llm_calls run)) + 1 + length (filter (registered ?tools) calls)"
      by (simp add: length_pushed_tool_results)
    with 1 2 4 answers_tool_results [of ?tools calls 9] show ?thesis
      by (simp add: maxIterations_def)
  qed
  from z h a b x d show ?thesis by blast
qed

theorem conversation_growth_witness:
  "length (llm_calls (runFinanceAgent two_calls_world (js ''hi''))) = 2
   \<and> (\<exists>c calls.
         llm_invoke two_calls_world 0 (llm_calls (runFinanceAgent two_calls_world (js ''hi'')) ! 0)
           = Inr (c, Some calls)
         \<and> length (llm_calls (runFinanceAgent two_calls_world (js ''hi'')) ! Suc 0)
             = length (llm_calls (runFinanceAgent two_calls_world (js ''hi'')) ! 0) + 1
               + length (filter (registered (create_tools two_calls_world)) calls))
   \<and> outcome (runFinanceAgent two_calls_world (js ''hi'')) = Inr (js ''done'')
   \<and> conversation (runFinanceAgent two_calls_world (js ''hi''))
       = last (llm_calls (runFinanceAgent two_calls_world (js ''hi''))) @ [AIMessage (js ''done'') None]
   \<and> length (llm_calls (runFinanceAgent busy_world (js ''hi''))) = 10
   \<and> length (conversation (runFinanceAgent busy_world (js ''hi'')))
       = length (last (llm_calls (runFinanceAgent busy_world (js ''hi'')))) + 1
         + length (filter (registered (create_tools busy_world)) [quote_call (js ''call_1'')])"
proof -
  let ?run = "runFinanceAgent two_calls_world (js ''hi'')"
  let ?busy = "runFinanceAgent busy_world (js ''hi'')"
  have len: "length (llm_calls ?run) = 2"
    by code_simp
  have inv: "llm_invoke two_calls_world (length (llm_calls ?run) - 1) (last (llm_calls ?run))
      = Inr (js ''done'', None)"
    unfolding len by (simp add: two_calls_world_def world_with_def)
  note t = conversation_growth [OF refl, of two_calls_world "js ''hi''"]
  from len have "Suc 0 < length (llm_calls ?run)" and ne: "llm_calls ?run \<noteq> []" by auto
  with t have a: "\<exists>c calls. llm_invoke two_calls_world 0 (llm_calls ?run ! 0) = Inr (c, Some calls)
       \<and> length (llm_calls ?run ! Suc 0)
           = length (llm_calls ?run ! 0) + 1 + length (filter (registered (create_tools two_calls_world)) calls)"
    by blast
  from t ne inv have b: "outcome ?run = Inr (js ''done'')
      \<and> conversation ?run = last (llm_calls ?run) @ [AIMessage (js ''done'') None]"
    by blast
  have blen: "length (llm_calls ?busy) = 10"
    by code_simp
  then have bne: "llm_calls ?busy \<noteq> []" by auto
  have binv: "llm_invoke busy_world (length (llm_calls ?busy) - 1) (last (llm_calls ?busy))
      = Inr ([], Some [quote_call (js ''call_1'')])"
    by (simp add: busy_world_def world_with_def)
  note u = conversation_growth [OF refl, of busy_world "js ''hi''"]
  from u bne binv have c: "length (conversation ?busy)
       = length (last (llm_calls ?busy)) + 1
         + length (filter (registered (create_tools busy_world)) [quote_call (js ''call_1'')])"
    by blast
  from len a b blen c show ?thesis by blast
qed


section \<open>Requests without a message\<close>

lemma includes_provide_a_message: "js_includes (js ''Please provide a message'') (js ''provide a message'')"
  by code_simp

text \<open>
  The claim as stated fails for a request whose body is the JSON value \<open>null\<close>, or does
  not parse as JSON at all: such a body lacks a message, and the error frame is
  \<open>Invalid request body\<close>, which does not contain \<open>provide a message\<close>.
\<close>

theorem provide_a_message_counterexample:
  "read_message (Inr JNull) = Inl TypeError_null
   \<and> frames (POST echo_world (Inr JNull)) = [\<lparr>type = Error, content = js ''Invalid request body''\<rparr>]
   \<and> frames (POST echo_world (Inl (JsError (js ''Unexpected end of JSON input''))))
       = [\<lparr>type = Error, content = js ''Invalid request body''\<rparr>]
   \<and> \<not> js_includes (js ''Invalid request body'') (js ''provide a message'')"
  by code_simp

text \<open>
  Claim C9, as amended. When the body of the request parses to a value other than
  \<open>null\<close> and its message is absent, or is not a string, or is the empty string, the
  only frame that the endpoint enqueues is the error frame \<open>Please provide a message\<close>
  and the agent is not run, so there is no model invocation and no tool execution. When
  the body does not parse or is \<open>null\<close>, the same holds with the error frame
  \<open>Invalid request body\<close>. When the agent is run, the conversation given to every
  model invocation, and the conversation at the end, start with the system message of
  the fixed prompt (the conversation is empty only when the model key is missing and the
  loop is never entered). How the stream ends on the rejected requests, where
  \<open>controller.close()\<close> is called twice, is no part of this statement.
\<close>

theorem missing_message_rejected:
  "(\<forall>msg. read_message request = Inr msg \<and> (\<forall>s. msg = Some (JStr s) \<longrightarrow> s = [])
       \<longrightarrow> frames (POST w request) = [\<lparr>type = Error, content = js ''Please provide a message''\<rparr>]
         \<and> js_includes (js ''Please provide a message'') (js ''provide a message'')
         \<and> agent (POST w request) = None)
   \<and> (\<forall>e. read_message request = Inl e
       \<longrightarrow> frames (POST w request) = [\<lparr>type = Error, content = js ''Invalid request body''\<rparr>]
         \<and> agent (POST w request) = None)
   \<and> (\<forall>run. agent (POST w request) = Some run
       \<longrightarrow> (\<forall>s\<in>set (llm_calls run). take 1 s = [SystemMessage (FINANCE_AGENT_SYSTEM_PROMPT w)])
         \<and> (conversation run = [] \<and> llm_calls run = []
            \<or> take 1 (conversation run) = [SystemMessage (FINANCE_AGENT_SYSTEM_PROMPT w)]))"
proof -
  have a: "frames (POST w request) = [\<lparr>type = Error, content = js ''Please provide a message''\<rparr>]
         \<and> js_includes (js ''Please provide a message'') (js ''provide a message'')
         \<and> agent (POST w request) = None"
    if "read_message request = Inr msg" "\<forall>s. msg = Some (JStr s) \<longrightarrow> s = []" for msg
  proof -
    from that(2) have "\<forall>s. msg = Some (JStr s) \<longrightarrow> trim s = []"
      using trim_Nil by metis
    from POST_no_message [OF that(1) this, of w] show ?thesis
      by (simp add: includes_provide_a_message)
  qed
  have b: "frames (POST w request) = [\<lparr>type = Error, content = js ''Invalid request body''\<rparr>]
         \<and> agent (POST w request) = None"
    if "read_message request = Inl e" for e
    using that by (simp add: POST_invalid)
  have c: "(\<forall>s\<in>set (llm_calls run). take 1 s = [SystemMessage (FINANCE_AGENT_SYSTEM_PROMPT w)])
         \<and> (conversation run = [] \<and> llm_calls run = []
            \<or> take 1 (conversation run) = [SystemMessage (FINANCE_AGENT_SYSTEM_PROMPT w)])"
    if run: "agent (POST w request) = Some run" for run
  proof -
    have "\<exists>query. run = runFinanceAgent w query"
    proof (cases "read_message request")
      case (Inl e)
      with run show ?thesis by (simp add: POST_invalid)
    next
      case (Inr msg)
      show ?thesis
      proof (cases "\<forall>s. msg = Some (JStr s) \<longrightarrow> trim s = []")
        case True
        with Inr run show ?thesis by (simp add: POST_no_message)
      next
        case False
        then obtain s where "msg = Some (JStr s)" "trim s \<noteq> []" by auto
        with Inr run show ?thesis by (auto simp: POST_accepted)
      qed
    qed
    then obtain query where q: "run = runFinanceAgent w query" ..
    show ?thesis
    proof (cases "getOpenAIKey w")
      case (Inl e)
      with q show ?thesis by (simp add: runFinanceAgent_no_key)
    next
      case (Inr key)
      let ?init = "[SystemMessage (FINANCE_AGENT_SYSTEM_PROMPT w), HumanMessage query]"
      from q Inr have loop: "run = agent_loop w (create_tools w) 0 ?init"
        by (simp add: runFinanceAgent_key)
      have first: "take 1 s = [SystemMessage (FINANCE_AGENT_SYSTEM_PROMPT w)]" if "prefix ?init s" for s
        using that by (auto simp: prefix_def)
      from conversation_extends [of ?init w "create_tools w" 0] first show ?thesis
        unfolding loop by blast
    qed
  qed
  from a b c show ?thesis by blast
qed

theorem missing_message_rejected_witness:
  "frames (POST echo_world (Inr (JObj []))) = [\<lparr>type = Error, content = js ''Please provide a message''\<rparr>]
   \<and> agent (POST echo_world (Inr (JObj []))) = None
   \<and> frames (POST echo_world (Inr (JObj [(js ''message'', JNum 7)])))
       = [\<lparr>type = Error, content = js ''Please provide a message''\<rparr>]
   \<and> frames (POST echo_world (Inr JNull)) = [\<lparr>type = Error, content = js ''Invalid request body''\<rparr>]
   \<and> agent (POST echo_world (request_with (js ''hi''))) = Some (runFinanceAgent echo_world (js ''hi''))
   \<and> take 1 (conversation (runFinanceAgent echo_world (js ''hi'')))
       = [SystemMessage (FINANCE_AGENT_SYSTEM_PROMPT echo_world)]"
proof -
  have r1: "read_message (Inr (JObj [])) = Inr None"
    and r2: "read_message (Inr (JObj [(js ''message'', JNum 7)])) = Inr (Some (JNum 7))"
    and r3: "read_message (Inr JNull) = Inl TypeError_null"
    by (simp_all add: read_message_def)
  have run: "agent (POST echo_world (request_with (js ''hi''))) = Some (runFinanceAgent echo_world (js ''hi''))"
    by code_simp
  have ne: "conversation (runFinanceAgent echo_world (js ''hi'')) \<noteq> []"
    by code_simp
  from missing_message_rejected [of "Inr (JObj [])" echo_world] r1
  have a: "frames (POST echo_world (Inr (JObj []))) = [\<lparr>type = Error, content = js ''Please provide a message''\<rparr>]
      \<and> agent (POST echo_world (Inr (JObj []))) = None"
    by simp
  from missing_message_rejected [of "Inr (JObj [(js ''message'', JNum 7)])" echo_world] r2
  have b: "frames (POST echo_world (Inr (JObj [(js ''message'', JNum 7)])))
       = [\<lparr>type = Error, content = js ''Please provide a message''\<rparr>]"
    by simp
  from missing_message_rejected [of "Inr JNull" echo_world] r3
  have c: "frames (POST echo_world (Inr JNull)) = [\<lparr>type = Error, content = js ''Invalid request body''\<rparr>]"
    by simp
  from missing_message_rejected [of "request_with (js ''hi'')" echo_world] run ne
  have d: "take 1 (conversation (runFinanceAgent echo_world (js ''hi'')))
       = [SystemMessage (FINANCE_AGENT_SYSTEM_PROMPT echo_world)]"
    by blast
  from a b c d run show ?thesis by blast
qed

section \<open>Truncation of the message\<close>




section \<open>The article count of the news tool\<close>









section \<open>Failure texts of the adapters\<close>

lemma js_includes_append: "js_includes ys search \<Longrightarrow> js_includes (xs @ ys) search"
  by (induction xs) auto

lemma RATE_LIMITED_message: "js_includes (message RATE_LIMITED) (js ''RATE_LIMITED'')"
  by code_simp

lemma rate_limit_text:
  "js_includes (js '' API rate limit reached. Alpha Vantage free tier allows 25 requests/day.'') (js ''rate limit'')"
  "js_includes (js '' API rate limit reached. Alpha Vantage free tier allows 25 requests/day. Try again tomorrow or upgrade your API key.'') (js ''rate limit'')"
  by code_simp+

lemma getCompanyNews_quota:
  "getApiKey w = Inr key \<Longrightarrow>
   fetch w t (NEWS_SENTIMENT symbol limit key) = HttpResponse True status (Inr data) \<Longrightarrow>
   get_prop data (js ''feed'') = Inr feed \<Longrightarrow> \<not> truthy feed \<Longrightarrow>
   js_includes (JSON_stringify w data) (js ''rate limit'') \<Longrightarrow>
   getCompanyNews w t symbol (Some limit) = Inl RATE_LIMITED"
  by (simp add: getCompanyNews_def)

lemma getStockQuote_quota:
  "getApiKey w = Inr key \<Longrightarrow>
   fetch w t (GLOBAL_QUOTE symbol key) = HttpResponse True status (Inr data) \<Longrightarrow>
   get_prop data (js ''Global Quote'') = Inr None \<Longrightarrow>
   js_includes (JSON_stringify w data) (js ''rate limit'') \<Longrightarrow>
   getStockQuote w t symbol = Inl RATE_LIMITED"
  by (simp add: getStockQuote_def)

lemma getCompanyInfo_quota:
  "getApiKey w = Inr key \<Longrightarrow>
   fetch w t (OVERVIEW symbol key) = HttpResponse True status (Inr data) \<Longrightarrow>
   get_prop data (js ''Symbol'') = Inr s \<Longrightarrow> \<not> truthy s \<Longrightarrow>
   js_includes (JSON_stringify w data) (js ''rate limit'') \<Longrightarrow>
   getCompanyInfo w t symbol = Inl RATE_LIMITED"
  by (simp add: getCompanyInfo_def)

text \<open>The quote and company-info adapters: every failure of the fetch is marked.\<close>

lemma stock_quote_failure_marked:
  "getStockQuote w t symbol = Inl err \<Longrightarrow>
   prefix warning_sign (stock_quote_func w t symbol) \<or> prefix cross_mark (stock_quote_func w t symbol)"
  by (simp add: stock_quote_func_def)

lemma company_info_failure_marked:
  "getCompanyInfo w t symbol = Inl err \<Longrightarrow>
   prefix warning_sign (company_info_func w t symbol) \<or> prefix cross_mark (company_info_func w t symbol)"
  by (simp add: company_info_func_def)

lemma stock_quote_rate_limited:
  "getStockQuote w t symbol = Inl RATE_LIMITED \<Longrightarrow>
   prefix warning_sign (stock_quote_func w t symbol)
   \<and> js_includes (stock_quote_func w t symbol) (js ''rate limit'')"
  by (simp add: stock_quote_func_def RATE_LIMITED_message js_includes_append rate_limit_text)

lemma company_info_rate_limited:
  "getCompanyInfo w t symbol = Inl RATE_LIMITED \<Longrightarrow>
   prefix warning_sign (company_info_func w t symbol)
   \<and> js_includes (company_info_func w t symbol) (js ''rate limit'')"
  by (simp add: company_info_func_def RATE_LIMITED_message js_includes_append rate_limit_text)

text \<open>The loop takes the text of a tool as the content of the tool message.\<close>

lemma run_tool_call_text:
  "find (\<lambda>t. tool_name t = name toolCall) tools = Some tool \<Longrightarrow>
   invoke tool when (args toolCall) = Inr text \<Longrightarrow>
   run_tool_call tools when toolCall = Some (ToolMessage text (call_id toolCall))"
  by (simp add: run_tool_call_def)

text \<open>The news adapter: no failure of the fetch is marked.\<close>

lemma company_news_failure_unmarked:
  "getCompanyNews w t symbol (Some limit) = Inl err \<Longrightarrow>
   \<not> prefix warning_sign (company_news_func w t symbol (Some limit))
   \<and> \<not> prefix cross_mark (company_news_func w t symbol (Some limit))"
  by (simp add: company_news_func_def news_rate_prefix_def news_error_prefix_def
      warning_sign_def cross_mark_def)

text \<open>
  Claim C5, at the input where the code departs from it. When the market-data service
  answers the request of the news adapter with its quota notice (status 200, no
  \<open>feed\<close>, the words \<open>rate limit\<close> in the body), the adapter does not raise and
  returns a text that contains \<open>rate limit\<close>; but the text does not start with the
  warning sign U+26A0 U+FE0F of the two sibling adapters, nor with their cross mark
  U+274C: it starts with the six code units U+201A U+00F6 U+2020 U+00D4 U+220F U+00E8
  that \<open>company-news.ts\<close> holds in its place.
\<close>

theorem news_rate_limit_reply:
  assumes "getApiKey w = Inr key"
    and "fetch w t (NEWS_SENTIMENT symbol limit key) = HttpResponse True status (Inr data)"
    and "get_prop data (js ''feed'') = Inr None"
    and "js_includes (JSON_stringify w data) (js ''rate limit'')"
  shows "company_news_func w t symbol (Some limit)
       = [0x201A, 0x00F6, 0x2020, 0x00D4, 0x220F, 0x00E8]
         @ js '' API rate limit reached. Alpha Vantage free tier allows 25 requests/day.''
     \<and> \<not> prefix warning_sign (company_news_func w t symbol (Some limit))
     \<and> \<not> prefix cross_mark (company_news_func w t symbol (Some limit))
     \<and> js_includes (company_news_func w t symbol (Some limit)) (js ''rate limit'')"
proof -
  have "\<not> truthy None" by simp
  from getCompanyNews_quota [OF assms(1,2,3) this assms(4)]
  have "getCompanyNews w t symbol (Some limit) = Inl RATE_LIMITED" .
  then have r: "company_news_func w t symbol (Some limit)
       = news_rate_prefix @ js '' API rate limit reached. Alpha Vantage free tier allows 25 requests/day.''"
    by (simp add: company_news_func_def RATE_LIMITED_message)
  show ?thesis
  proof (intro conjI)
    show "company_news_func w t symbol (Some limit)
       = [0x201A, 0x00F6, 0x2020, 0x00D4, 0x220F, 0x00E8]
         @ js '' API rate limit reached. Alpha Vantage free tier allows 25 requests/day.''"
      using r unfolding news_rate_prefix_def .
    show "\<not> prefix warning_sign (company_news_func w t symbol (Some limit))"
      unfolding r by (simp add: news_rate_prefix_def warning_sign_def)
    show "\<not> prefix cross_mark (company_news_func w t symbol (Some limit))"
      unfolding r by (simp add: news_rate_prefix_def cross_mark_def)
    show "js_includes (company_news_func w t symbol (Some limit)) (js ''rate limit'')"
      unfolding r by (intro js_includes_append rate_limit_text)
  qed
qed

theorem news_rate_limit_reply_witness:
  "company_news_func quota_world (0, 0) (js ''AAPL'') (Some 5)
       = [0x201A, 0x00F6, 0x2020, 0x00D4, 0x220F, 0x00E8]
         @ js '' API rate limit reached. Alpha Vantage free tier allows 25 requests/day.''
   \<and> \<not> prefix warning_sign (company_news_func quota_world (0, 0) (js ''AAPL'') (Some 5))
   \<and> prefix warning_sign (stock_quote_func quota_world (0, 0) (js ''AAPL''))
   \<and> prefix warning_sign (company_info_func quota_world (0, 0) (js ''AAPL''))"
proof -
  have key: "getApiKey quota_world = Inr (js ''demo'')"
    by (simp add: getApiKey_def quota_world_def world_with_def js_def)
  have f: "fetch quota_world (0, 0) (NEWS_SENTIMENT (js ''AAPL'') 5 (js ''demo''))
      = HttpResponse True 200 (Inr quota_notice)"
    by (simp add: quota_world_def)
  have feed: "get_prop quota_notice (js ''feed'') = Inr None"
    by (simp add: quota_notice_def js_def)
  have inc: "js_includes (JSON_stringify quota_world quota_notice) (js ''rate limit'')"
    by code_simp
  have sib: "prefix warning_sign (stock_quote_func quota_world (0, 0) (js ''AAPL''))"
    "prefix warning_sign (company_info_func quota_world (0, 0) (js ''AAPL''))"
    by code_simp+
  from news_rate_limit_reply [OF key f feed inc] sib show ?thesis by blast
qed

end
